theory Spec2Isabelle
  imports Main "HOL-Library.Sublist"
begin

section \<open>Requests, responses and options (types.ts)\<close>

text \<open>
  \<open>SearchOptions\<close>: every field is optional in the source, so every field is an option here;
  the empty object literal \<open>{}\<close> is \<open>empty_options\<close>.
\<close>

datatype timeout = Millis nat | DeadlineResponse nat nat

record SearchOptions =
  version :: "string option"
  key :: "string option"
  retry :: "nat option"
  timeout :: "timeout option"
  clientRequestId :: "string option"
  returnClientRequestId :: "bool option"
  ifMatch :: "string option"
  ifNoneMatch :: "string option"

definition empty_options :: SearchOptions where
  "empty_options = \<lparr>version = None, key = None, retry = None, timeout = None,
     clientRequestId = None, returnClientRequestId = None, ifMatch = None, ifNoneMatch = None\<rparr>"

text \<open>
  \<open>SearchRequest\<close>, with the fields the indexing requests set (method, path, headers, body);
  the optional query, parser and callback fields are never set by them. The fields \<open>method\<close>
  and, below, \<open>value\<close> carry a prime because the plain names are reserved words here.
\<close>

record 'b SearchRequest =
  method' :: string
  path :: string
  headers :: "(string \<times> string) list"
  body :: 'b

text \<open>\<open>ListResults\<close> (the shape of \<open>IndexingResults\<close>) and \<open>AzureSearchResponse\<close>; of the
  latter only the fields the indexing code can read are kept.\<close>

record 'r IndexingResults =
  value' :: "'r list"

record 't AzureSearchResponse =
  result :: 't
  statusCode :: nat

text \<open>
  An asynchronous call that may reject is a state transformer on the outside world that
  returns either the error (\<open>Inl\<close>) or the value (\<open>Inr\<close>). The requester
  (\<open>SearchRequester.request\<close>, the HTTP layer) is such a call and is a parameter throughout.
\<close>

type_synonym ('b, 'e, 'r, 'w) requester =
  "'b SearchRequest \<Rightarrow> SearchOptions option \<Rightarrow> 'w \<Rightarrow> ('e + 'r IndexingResults AzureSearchResponse) \<times> 'w"

type_synonym ('d, 'e, 'r, 's) flushHandler = "'d list \<Rightarrow> 's \<Rightarrow> ('e + 'r list) \<times> 's"

text \<open>
  Observation of calls: \<open>logged f\<close> behaves as \<open>f\<close> and appends each call, with its argument
  and its outcome, to a log carried beside the state. Properties about which calls are made
  are stated on the log.
\<close>

definition logged :: "('a \<Rightarrow> 's \<Rightarrow> 'b \<times> 's) \<Rightarrow> 'a \<Rightarrow> ('a \<times> 'b) list \<times> 's \<Rightarrow> 'b \<times> (('a \<times> 'b) list \<times> 's)" where
  "logged f a = (\<lambda>(tr, s). case f a s of (b, s') \<Rightarrow> (b, (tr @ [(a, b)], s')))"

definition traced :: "('b, 'e, 'r, 'w) requester \<Rightarrow> ('b, 'e, 'r, ('b SearchRequest \<times> ('e + 'r IndexingResults AzureSearchResponse)) list \<times> 'w) requester" where
  "traced requester req options = logged (\<lambda>q. requester q options) req"

section \<open>The batch accumulator (IndexBuffer)\<close>

text \<open>
  The class \<open>IndexBuffer\<close> is imported from \<open>./index-buffer\<close>. Both callers construct it with
  one argument, the flush handler, and use two methods, \<open>add\<close> and \<open>flush\<close>. An instance is
  modelled by its initial state and its two methods; the constructor is a function from the
  constructor arguments to the instance. The argument record has a field for batch limits,
  which is \<open>None\<close> when the call passes none. The limits themselves are the configuration
  the spec names: a cap on the number of operations and a cap on the estimated serialized
  size of one flush.
\<close>

record limits =
  maxBatchCount :: nat
  maxBatchBytes :: nat

record 'h IndexBuffer_args =
  flushHandler :: 'h
  limits_arg :: "limits option"

record ('d, 'e, 'r, 'b, 's) IndexBuffer_obj =
  initial :: 'b
  add :: "'d \<Rightarrow> 'b \<Rightarrow> 's \<Rightarrow> ('e + 'r list) \<times> 'b \<times> 's"
  flush :: "'b \<Rightarrow> 's \<Rightarrow> ('e + 'r list) \<times> 'b \<times> 's"

text \<open>
  Modelled from the spec: the state of an \<open>IndexBuffer\<close> (index-buffer.ts is not among the
  sources), the pending batch: the operations awaiting transmission, in order, with the
  running count and the running estimate of their serialized size.
\<close>

record 'd PendingBatch =
  operations :: "'d list"
  count :: nat
  estimatedSize :: nat

definition empty_batch :: "'d PendingBatch" where
  "empty_batch = \<lparr>operations = [], count = 0, estimatedSize = 0\<rparr>"

text \<open>
  Modelled from the spec: \<open>IndexBuffer.flush\<close> (index-buffer.ts is not among the sources).
  If the pending batch is non-empty it is handed to the flush handler and replaced by an
  empty batch, whether the handler returns or fails, and the handler's outcome is returned;
  if it is empty the result is the empty list and the handler is not called.
\<close>

definition IndexBuffer_flush :: "('d, 'e, 'r, 's) flushHandler \<Rightarrow> 'd PendingBatch \<Rightarrow> 's \<Rightarrow> ('e + 'r list) \<times> 'd PendingBatch \<times> 's" where
  "IndexBuffer_flush h b s =
     (if operations b = [] then (Inr [], b, s)
      else (case h (operations b) s of (r, s') \<Rightarrow> (r, empty_batch, s')))"

text \<open>
  Modelled from the spec: the threshold test of \<open>IndexBuffer.add\<close>. Appending would breach a
  limit when the count would exceed \<open>maxBatchCount\<close> or the size estimate, incremented by the
  serialized size of the new operation, would exceed \<open>maxBatchBytes\<close>.
\<close>

definition would_breach :: "limits \<Rightarrow> ('d \<Rightarrow> nat) \<Rightarrow> 'd PendingBatch \<Rightarrow> 'd \<Rightarrow> bool" where
  "would_breach lim serializedSize b operation \<longleftrightarrow>
     count b + 1 > maxBatchCount lim \<or> estimatedSize b + serializedSize operation > maxBatchBytes lim"

definition append_operation :: "('d \<Rightarrow> nat) \<Rightarrow> 'd \<Rightarrow> 'd PendingBatch \<Rightarrow> 'd PendingBatch" where
  "append_operation serializedSize operation b =
     \<lparr>operations = operations b @ [operation], count = count b + 1,
      estimatedSize = estimatedSize b + serializedSize operation\<rparr>"

text \<open>
  Modelled from the spec: \<open>IndexBuffer.add\<close>. If appending would breach a limit the current
  batch is flushed first and the operation starts the fresh batch; the results of that flush
  are returned, or the empty list when no flush occurred. A failure of the flush propagates
  to the caller of \<open>add\<close>: the operation is then not appended.
\<close>

definition IndexBuffer_add :: "limits \<Rightarrow> ('d \<Rightarrow> nat) \<Rightarrow> ('d, 'e, 'r, 's) flushHandler \<Rightarrow> 'd \<Rightarrow> 'd PendingBatch \<Rightarrow> 's \<Rightarrow> ('e + 'r list) \<times> 'd PendingBatch \<times> 's" where
  "IndexBuffer_add lim serializedSize h operation b s =
     (if would_breach lim serializedSize b operation then
        (case IndexBuffer_flush h b s of
           (Inl e, b', s') \<Rightarrow> (Inl e, b', s')
         | (Inr rs, b', s') \<Rightarrow> (Inr rs, append_operation serializedSize operation b', s'))
      else (Inr [], append_operation serializedSize operation b, s))"

text \<open>
  Modelled from the spec: the constructor of \<open>IndexBuffer\<close>. The limits in force are the ones
  passed at construction, if any, and otherwise the ones of the module itself
  (\<open>module_limits\<close>, a parameter: the spec names 1000 operations and 16 MB as examples).
  The serialized size of an operation is a parameter as well.
\<close>

definition limits_in_force :: "limits \<Rightarrow> 'h IndexBuffer_args \<Rightarrow> limits" where
  "limits_in_force module_limits args = (case limits_arg args of None \<Rightarrow> module_limits | Some l \<Rightarrow> l)"

definition IndexBuffer :: "limits \<Rightarrow> ('d \<Rightarrow> nat) \<Rightarrow> ('d, 'e, 'r, 's) flushHandler IndexBuffer_args \<Rightarrow> ('d, 'e, 'r, 'd PendingBatch, 's) IndexBuffer_obj" where
  "IndexBuffer module_limits serializedSize args =
     \<lparr>initial = empty_batch,
      add = IndexBuffer_add (limits_in_force module_limits args) serializedSize (flushHandler args),
      flush = IndexBuffer_flush (flushHandler args)\<rparr>"

section \<open>Batch mode: SearchIndex.index (search-index.ts)\<close>

text \<open>
  The second argument of \<open>index\<close> is absent, an options object or a callback. When it is a
  callback the options are \<open>{}\<close>; otherwise they are the argument itself, possibly undefined.
\<close>

datatype ('o, 'c) optionsOrCallback = Undefined | Options 'o | Callback 'c

definition index_options :: "(SearchOptions, 'c) optionsOrCallback \<Rightarrow> SearchOptions option" where
  "index_options optionsOrCallback =
     (case optionsOrCallback of
        Callback _ \<Rightarrow> Some empty_options
      | Options opts \<Rightarrow> Some opts
      | Undefined \<Rightarrow> None)"

text \<open>The request both flush handlers build for a batch \<open>data\<close>.\<close>

definition docs_index_request :: "'b \<Rightarrow> 'b SearchRequest" where
  "docs_index_request data =
     \<lparr>method' = ''post'', path = ''/docs/index'',
      headers = [(''content-type'', ''application/json'')], body = data\<rparr>"

text \<open>
  The flush handler of \<open>index\<close>. Its state is the local array \<open>results\<close> paired with the
  outside world. It awaits \<open>this.request\<close> and pushes every element of
  \<open>resp.result.value\<close> onto \<open>results\<close>; a rejection of the request propagates. The arrow
  function returns no value, which stands here as the empty list: nothing in \<open>index\<close> reads
  what \<open>add\<close> and \<open>flush\<close> return.
\<close>

definition index_flushHandler :: "('b, 'e, 'r, 'w) requester \<Rightarrow> SearchOptions option \<Rightarrow> 'b \<Rightarrow> 'r list \<times> 'w \<Rightarrow> ('e + 'r list) \<times> ('r list \<times> 'w)" where
  "index_flushHandler request options data =
     (\<lambda>(results, w).
        case request (docs_index_request data) options w of
          (Inl err, w') \<Rightarrow> (Inl err, (results, w'))
        | (Inr resp, w') \<Rightarrow> (Inr [], (results @ value' (result resp), w')))"

text \<open>\<open>new IndexBuffer(async (data) => ...)\<close>: the handler is the only argument.\<close>

definition index_buffer_args :: "('b, 'e, 'r, 'w) requester \<Rightarrow> SearchOptions option \<Rightarrow> ('b \<Rightarrow> 'r list \<times> 'w \<Rightarrow> ('e + 'r list) \<times> ('r list \<times> 'w)) IndexBuffer_args" where
  "index_buffer_args request options =
     \<lparr>flushHandler = index_flushHandler request options, limits_arg = None\<rparr>"

text \<open>
  The loop \<open>for (const document of documents) await buffer.add(document)\<close>. A rejected
  \<open>add\<close> leaves the loop with the error; what \<open>add\<close> returns is dropped.
\<close>

fun index_loop :: "('d, 'e, 'r, 'b, 's) IndexBuffer_obj \<Rightarrow> 'd list \<Rightarrow> 'b \<Rightarrow> 's \<Rightarrow> ('e + 'b) \<times> 's" where
  "index_loop buffer [] b s = (Inr b, s)"
| "index_loop buffer (document # documents) b s =
     (case add buffer document b s of
        (Inl err, b', s') \<Rightarrow> (Inl err, s')
      | (Inr _, b', s') \<Rightarrow> index_loop buffer documents b' s')"

text \<open>\<open>const buffer = new IndexBuffer(...)\<close> in \<open>index\<close>, for the resolved options.\<close>

definition index_buffer :: "(('d list \<Rightarrow> 'r list \<times> 'w \<Rightarrow> ('e + 'r list) \<times> ('r list \<times> 'w)) IndexBuffer_args \<Rightarrow> ('d, 'e, 'r, 'b, 'r list \<times> 'w) IndexBuffer_obj) \<Rightarrow> ('d list, 'e, 'r, 'w) requester \<Rightarrow> (SearchOptions, 'c) optionsOrCallback \<Rightarrow> ('d, 'e, 'r, 'b, 'r list \<times> 'w) IndexBuffer_obj" where
  "index_buffer IndexBuffer_class request optionsOrCallback =
     IndexBuffer_class (index_buffer_args request (index_options optionsOrCallback))"

text \<open>
  The body of \<open>index\<close>: a fresh \<open>results\<close> array and buffer, the loop, the final
  \<open>buffer.flush()\<close>. \<open>index_run\<close> returns, beside the outcome, the \<open>results\<close> array as
  it stands when the body ends; \<open>index\<close> is what the caller receives (through the promise
  or the callback): the error, or the \<open>results\<close> array. The class \<open>IndexBuffer\<close> and the
  method \<open>this.request\<close> (inherited from \<open>SearchResource\<close>) are parameters: what
  \<open>this.request\<close> does with a request is not among the sources, so in batch mode requests
  are observed where \<open>index\<close> hands them to it.
\<close>

definition index_run :: "(('d list \<Rightarrow> 'r list \<times> 'w \<Rightarrow> ('e + 'r list) \<times> ('r list \<times> 'w)) IndexBuffer_args \<Rightarrow> ('d, 'e, 'r, 'b, 'r list \<times> 'w) IndexBuffer_obj) \<Rightarrow> ('d list, 'e, 'r, 'w) requester \<Rightarrow> 'd list \<Rightarrow> (SearchOptions, 'c) optionsOrCallback \<Rightarrow> 'w \<Rightarrow> ('e + unit) \<times> 'r list \<times> 'w" where
  "index_run IndexBuffer_class request documents optionsOrCallback w =
     (let buffer = index_buffer IndexBuffer_class request optionsOrCallback
      in case index_loop buffer documents (initial buffer) ([], w) of
           (Inl err, (results, w')) \<Rightarrow> (Inl err, results, w')
         | (Inr b, s) \<Rightarrow>
             (case flush buffer b s of
                (Inl err, _, (results, w')) \<Rightarrow> (Inl err, results, w')
              | (Inr _, _, (results, w')) \<Rightarrow> (Inr (), results, w')))"

definition index :: "(('d list \<Rightarrow> 'r list \<times> 'w \<Rightarrow> ('e + 'r list) \<times> ('r list \<times> 'w)) IndexBuffer_args \<Rightarrow> ('d, 'e, 'r, 'b, 'r list \<times> 'w) IndexBuffer_obj) \<Rightarrow> ('d list, 'e, 'r, 'w) requester \<Rightarrow> 'd list \<Rightarrow> (SearchOptions, 'c) optionsOrCallback \<Rightarrow> 'w \<Rightarrow> ('e + 'r list) \<times> 'w" where
  "index IndexBuffer_class request documents optionsOrCallback w =
     (case index_run IndexBuffer_class request documents optionsOrCallback w of
        (Inl err, results, w') \<Rightarrow> (Inl err, w')
      | (Inr _, results, w') \<Rightarrow> (Inr results, w'))"

section \<open>Stream mode: IndexStream (index-stream.ts)\<close>

text \<open>\<open>IndexStream.request\<close>: prefixes the path and calls the requester with the stream's options.\<close>

definition IndexStream_request :: "('b, 'e, 'r, 'w) requester \<Rightarrow> string \<Rightarrow> SearchOptions option \<Rightarrow> 'b SearchRequest \<Rightarrow> 'w \<Rightarrow> ('e + 'r IndexingResults AzureSearchResponse) \<times> 'w" where
  "IndexStream_request requester index_name options req =
     requester (req\<lparr>path := ''/indexes/'' @ index_name @ path req\<rparr>) options"

text \<open>The flush handler of the stream's buffer: it returns \<open>resp.result.value\<close>.\<close>

definition stream_flushHandler :: "('b, 'e, 'r, 'w) requester \<Rightarrow> string \<Rightarrow> SearchOptions option \<Rightarrow> 'b \<Rightarrow> 'w \<Rightarrow> ('e + 'r list) \<times> 'w" where
  "stream_flushHandler requester index_name options data w =
     (case IndexStream_request requester index_name options (docs_index_request data) w of
        (Inl err, w') \<Rightarrow> (Inl err, w')
      | (Inr resp, w') \<Rightarrow> (Inr (value' (result resp)), w'))"

definition stream_buffer_args :: "('b, 'e, 'r, 'w) requester \<Rightarrow> string \<Rightarrow> SearchOptions option \<Rightarrow> ('b \<Rightarrow> 'w \<Rightarrow> ('e + 'r list) \<times> 'w) IndexBuffer_args" where
  "stream_buffer_args requester index_name options =
     \<lparr>flushHandler = stream_flushHandler requester index_name options, limits_arg = None\<rparr>"

text \<open>
  \<open>IndexStream.process\<close>: with a document it awaits \<open>buffer.add\<close>, without one
  \<open>buffer.flush\<close>; a rejection is caught. It then calls \<open>cb(error, maybeResults)\<close>: the
  pair returned here is that argument pair, \<open>None\<close> standing for \<open>null\<close> and for the
  unassigned \<open>maybeResults\<close>. Chunks are document objects and errors are error objects,
  hence truthy.
\<close>

definition process :: "('d, 'e, 'r, 'b, 's) IndexBuffer_obj \<Rightarrow> 'd option \<Rightarrow> 'b \<Rightarrow> 's \<Rightarrow> ('e option \<times> 'r list option) \<times> 'b \<times> 's" where
  "process buffer document b s =
     (case (case document of Some d \<Rightarrow> add buffer d b s | None \<Rightarrow> flush buffer b s) of
        (Inl err, b', s') \<Rightarrow> ((Some err, None), b', s')
      | (Inr maybeResults, b', s') \<Rightarrow> ((None, Some maybeResults), b', s'))"

text \<open>
  The stream as its consumer and its producer see it: the state of the buffer, the data
  emitted so far, and whether the stream is open, has signalled an error, or has ended.
  The base class \<open>Transform\<close> belongs to the runtime; its contract for the callback is:
  an error argument errors the stream, which then takes no further chunk and runs no
  final flush; otherwise a data argument that is not null is pushed downstream, and after
  the final flush the end of the stream is signalled.
\<close>

datatype 'e stream_status = Open | Errored 'e | Ended

record ('b, 'r, 'e) IndexStream =
  buffer_state :: 'b
  emitted :: "'r list list"
  status :: "'e stream_status"

definition transform_callback :: "'e option \<times> 'r list option \<Rightarrow> ('b, 'r, 'e) IndexStream \<Rightarrow> ('b, 'r, 'e) IndexStream" where
  "transform_callback args st =
     (case args of
        (Some err, _) \<Rightarrow> st\<lparr>status := Errored err\<rparr>
      | (None, None) \<Rightarrow> st
      | (None, Some data) \<Rightarrow> st\<lparr>emitted := emitted st @ [data]\<rparr>)"

definition flush_callback :: "'e option \<times> 'r list option \<Rightarrow> ('b, 'r, 'e) IndexStream \<Rightarrow> ('b, 'r, 'e) IndexStream" where
  "flush_callback args st =
     (case args of
        (Some err, _) \<Rightarrow> st\<lparr>status := Errored err\<rparr>
      | (None, None) \<Rightarrow> st\<lparr>status := Ended\<rparr>
      | (None, Some data) \<Rightarrow> st\<lparr>emitted := emitted st @ [data], status := Ended\<rparr>)"

text \<open>The \<open>transform\<close> and \<open>flush\<close> options of the constructor: both call \<open>process\<close>.\<close>

definition transform :: "('d, 'e, 'r, 'b, 's) IndexBuffer_obj \<Rightarrow> 'd \<Rightarrow> ('b, 'r, 'e) IndexStream \<Rightarrow> 's \<Rightarrow> ('b, 'r, 'e) IndexStream \<times> 's" where
  "transform buffer chunk st s =
     (if status st \<noteq> Open then (st, s)
      else (case process buffer (Some chunk) (buffer_state st) s of
              (args, b', s') \<Rightarrow> (transform_callback args (st\<lparr>buffer_state := b'\<rparr>), s')))"

definition final_flush :: "('d, 'e, 'r, 'b, 's) IndexBuffer_obj \<Rightarrow> ('b, 'r, 'e) IndexStream \<Rightarrow> 's \<Rightarrow> ('b, 'r, 'e) IndexStream \<times> 's" where
  "final_flush buffer st s =
     (if status st \<noteq> Open then (st, s)
      else (case process buffer None (buffer_state st) s of
              (args, b', s') \<Rightarrow> (flush_callback args (st\<lparr>buffer_state := b'\<rparr>), s')))"

text \<open>What a producer does to the stream: write a document, or end it.\<close>

datatype 'd stream_input = Write 'd | End

fun stream_run :: "('d, 'e, 'r, 'b, 's) IndexBuffer_obj \<Rightarrow> 'd stream_input list \<Rightarrow> ('b, 'r, 'e) IndexStream \<Rightarrow> 's \<Rightarrow> ('b, 'r, 'e) IndexStream \<times> 's" where
  "stream_run buffer [] st s = (st, s)"
| "stream_run buffer (Write d # inputs) st s =
     (case transform buffer d st s of (st', s') \<Rightarrow> stream_run buffer inputs st' s')"
| "stream_run buffer (End # inputs) st s =
     (case final_flush buffer st s of (st', s') \<Rightarrow> stream_run buffer inputs st' s')"

text \<open>A new stream: the buffer as constructed, nothing emitted, open.\<close>

definition new_IndexStream :: "('d, 'e, 'r, 'b, 's) IndexBuffer_obj \<Rightarrow> ('b, 'r, 'e) IndexStream" where
  "new_IndexStream buffer = \<lparr>buffer_state = initial buffer, emitted = [], status = Open\<rparr>"

section \<open>Date parsing in search, suggest and lookup (search-index.ts)\<close>

text \<open>\<open>SearchOptions & DocumentParseOptions\<close>: the search options with the optional \<open>parseDates\<close>.\<close>

record DocumentParseOptions = SearchOptions +
  parseDates :: "bool option"

definition empty_parse_options :: DocumentParseOptions where
  "empty_parse_options = \<lparr>version = None, key = None, retry = None, timeout = None,
     clientRequestId = None, returnClientRequestId = None, ifMatch = None, ifNoneMatch = None,
     parseDates = None\<rparr>"

text \<open>
  A parsed response. \<open>JDate s\<close> is the object \<open>new Date(s)\<close>; numbers are kept abstract.
  The key handed to a reviver is the empty root key, a property name or an array index.
\<close>

datatype 'n json =
    JNull
  | JBool bool
  | JNumber 'n
  | JString string
  | JArray "'n json list"
  | JObject "(string \<times> 'n json) list"
  | JDate string

datatype json_key = Root | Property string | Index nat

text \<open>
  \<open>RE_DATE\<close>. The expression is anchored at both ends and has no flags, so \<open>test\<close> succeeds
  exactly when the whole string is matched; \<open>\d\<close> is an ASCII digit. The optional group
  leaves four shapes of tail: \<open>Z\<close>, or a dot, one to three digits and \<open>Z\<close>.
\<close>

definition is_digit :: "char \<Rightarrow> bool" where
  "is_digit c \<longleftrightarrow> c \<in> set ''0123456789''"

datatype atom = Digit | Lit char

fun atom_matches :: "atom \<Rightarrow> char \<Rightarrow> bool" where
  "atom_matches Digit c = is_digit c"
| "atom_matches (Lit l) c = (c = l)"

fun matches :: "atom list \<Rightarrow> string \<Rightarrow> bool" where
  "matches [] [] = True"
| "matches (a # ats) (c # cs) = (atom_matches a c \<and> matches ats cs)"
| "matches _ _ = False"

definition date_time_atoms :: "atom list" where
  "date_time_atoms =
     [Digit, Digit, Digit, Digit, Lit CHR ''-'', Digit, Digit, Lit CHR ''-'', Digit, Digit,
      Lit CHR ''T'', Digit, Digit, Lit CHR '':'', Digit, Digit, Lit CHR '':'', Digit, Digit]"

definition RE_DATE_test :: "string \<Rightarrow> bool" where
  "RE_DATE_test s \<longleftrightarrow>
     matches (date_time_atoms @ [Lit CHR ''Z'']) s
     \<or> matches (date_time_atoms @ [Lit CHR ''.'', Digit, Lit CHR ''Z'']) s
     \<or> matches (date_time_atoms @ [Lit CHR ''.'', Digit, Digit, Lit CHR ''Z'']) s
     \<or> matches (date_time_atoms @ [Lit CHR ''.'', Digit, Digit, Digit, Lit CHR ''Z'']) s"

text \<open>
  The options of \<open>search\<close>, \<open>suggest\<close> and \<open>lookup\<close>: \<open>{}\<close> for a callback, else the argument
  or \<open>{}\<close> when it is missing; then \<open>parseDates\<close> is set to \<open>true\<close> if it is undefined.
\<close>

definition parse_options :: "(DocumentParseOptions, 'c) optionsOrCallback \<Rightarrow> DocumentParseOptions" where
  "parse_options optionsOrCallback =
     (let options = (case optionsOrCallback of
                       Callback _ \<Rightarrow> empty_parse_options
                     | Options opts \<Rightarrow> opts
                     | Undefined \<Rightarrow> empty_parse_options)
      in if parseDates options = None then options\<lparr>parseDates := Some True\<rparr> else options)"

text \<open>The reviver the three operations pass to \<open>jsonParser\<close>.\<close>

definition date_reviver :: "DocumentParseOptions \<Rightarrow> json_key \<Rightarrow> 'n json \<Rightarrow> 'n json" where
  "date_reviver options k v =
     (case v of
        JString s \<Rightarrow> if parseDates options = Some True \<and> RE_DATE_test s then JDate s else v
      | _ \<Rightarrow> v)"

text \<open>
  Modelled from the spec: \<open>jsonParser\<close> (parsers.ts is not among the sources; the spec names
  the JSON date coercion of response parsing). It is taken to hand its argument to
  \<open>JSON.parse\<close> as the reviver. \<open>JSON.parse\<close> revives bottom-up: the elements of an array and
  the properties of an object first, each under its index or name, then the value itself,
  the root under the empty key.
\<close>

fun internalize :: "(json_key \<Rightarrow> 'n json \<Rightarrow> 'n json) \<Rightarrow> json_key \<Rightarrow> 'n json \<Rightarrow> 'n json"
  and internalize_elements :: "(json_key \<Rightarrow> 'n json \<Rightarrow> 'n json) \<Rightarrow> nat \<Rightarrow> 'n json list \<Rightarrow> 'n json list"
  and internalize_properties :: "(json_key \<Rightarrow> 'n json \<Rightarrow> 'n json) \<Rightarrow> (string \<times> 'n json) list \<Rightarrow> (string \<times> 'n json) list" where
  "internalize reviver k (JArray xs) = reviver k (JArray (internalize_elements reviver 0 xs))"
| "internalize reviver k (JObject ps) = reviver k (JObject (internalize_properties reviver ps))"
| "internalize reviver k v = reviver k v"
| "internalize_elements reviver i [] = []"
| "internalize_elements reviver i (x # xs) =
     internalize reviver (Index i) x # internalize_elements reviver (Suc i) xs"
| "internalize_properties reviver [] = []"
| "internalize_properties reviver ((name, x) # ps) =
     (name, internalize reviver (Property name) x) # internalize_properties reviver ps"

definition jsonParser :: "(json_key \<Rightarrow> 'n json \<Rightarrow> 'n json) \<Rightarrow> 'n json \<Rightarrow> 'n json" where
  "jsonParser reviver response = internalize reviver Root response"

text \<open>The parser of each of the three operations, as a function of the caller's argument.\<close>

definition search_parser :: "(DocumentParseOptions, 'c) optionsOrCallback \<Rightarrow> 'n json \<Rightarrow> 'n json" where
  "search_parser optionsOrCallback = jsonParser (date_reviver (parse_options optionsOrCallback))"

definition suggest_parser :: "(DocumentParseOptions, 'c) optionsOrCallback \<Rightarrow> 'n json \<Rightarrow> 'n json" where
  "suggest_parser optionsOrCallback = jsonParser (date_reviver (parse_options optionsOrCallback))"

definition lookup_parser :: "(DocumentParseOptions, 'c) optionsOrCallback \<Rightarrow> 'n json \<Rightarrow> 'n json" where
  "lookup_parser optionsOrCallback = jsonParser (date_reviver (parse_options optionsOrCallback))"

section \<open>Notions used to state the properties\<close>

text \<open>A driver of an accumulator: any sequence of \<open>add\<close> and \<open>flush\<close> calls, whatever each
  call returns, and the documents such a sequence adds.\<close>

datatype 'd buffer_call = Add 'd | Flush

fun run_calls :: "('d, 'e, 'r, 'b, 's) IndexBuffer_obj \<Rightarrow> 'd buffer_call list \<Rightarrow> 'b \<Rightarrow> 's \<Rightarrow> 'b \<times> 's" where
  "run_calls buffer [] b s = (b, s)"
| "run_calls buffer (Add d # calls) b s =
     (case add buffer d b s of (_, b', s') \<Rightarrow> run_calls buffer calls b' s')"
| "run_calls buffer (Flush # calls) b s =
     (case flush buffer b s of (_, b', s') \<Rightarrow> run_calls buffer calls b' s')"

fun added :: "'d buffer_call list \<Rightarrow> 'd list" where
  "added [] = []"
| "added (Add d # calls) = d # added calls"
| "added (Flush # calls) = added calls"

text \<open>A batch within both limits; a batch that is one document larger than the byte limit.\<close>

definition within_limits :: "limits \<Rightarrow> ('d \<Rightarrow> nat) \<Rightarrow> 'd list \<Rightarrow> bool" where
  "within_limits lim serializedSize batch \<longleftrightarrow>
     length batch \<le> maxBatchCount lim \<and> sum_list (map serializedSize batch) \<le> maxBatchBytes lim"

definition single_oversized :: "limits \<Rightarrow> ('d \<Rightarrow> nat) \<Rightarrow> 'd list \<Rightarrow> bool" where
  "single_oversized lim serializedSize batch \<longleftrightarrow>
     (case batch of [d] \<Rightarrow> serializedSize d > maxBatchBytes lim | _ \<Rightarrow> False)"

definition batch_ok :: "limits \<Rightarrow> ('d \<Rightarrow> nat) \<Rightarrow> 'd list \<Rightarrow> bool" where
  "batch_ok lim serializedSize batch \<longleftrightarrow>
     within_limits lim serializedSize batch \<or> single_oversized lim serializedSize batch"

text \<open>The running count and size estimate agree with the pending operations.\<close>

definition accounted :: "('d \<Rightarrow> nat) \<Rightarrow> 'd PendingBatch \<Rightarrow> bool" where
  "accounted serializedSize b \<longleftrightarrow>
     count b = length (operations b) \<and>
     estimatedSize b = sum_list (map serializedSize (operations b))"

definition buffer_inv :: "limits \<Rightarrow> ('d \<Rightarrow> nat) \<Rightarrow> 'd PendingBatch \<Rightarrow> bool" where
  "buffer_inv lim serializedSize b \<longleftrightarrow>
     accounted serializedSize b \<and> batch_ok lim serializedSize (operations b)"

definition succeeded :: "'e + 'a \<Rightarrow> bool" where
  "succeeded r = (case r of Inl _ \<Rightarrow> False | Inr _ \<Rightarrow> True)"

text \<open>
  The contract of the remote service for indexing requests: a successful response carries
  one result per operation of the request body, in the order of the operations;
  \<open>answers d r\<close> says that \<open>r\<close> is the result for the operation \<open>d\<close>.
\<close>

definition well_answered :: "('d \<Rightarrow> 'r \<Rightarrow> bool) \<Rightarrow> ('d list, 'e, 'r, 'w) requester \<Rightarrow> bool" where
  "well_answered answers request \<longleftrightarrow>
     (\<forall>req options w resp w'. request req options w = (Inr resp, w') \<longrightarrow>
        list_all2 answers (body req) (value' (result resp)))"

text \<open>
  The date pattern in words: year, month, day, \<open>T\<close>, hours, minutes, seconds, an optional
  fraction of a dot and one to three digits, and \<open>Z\<close>, with nothing before or after. And the
  response in which every string value of that form is replaced by its date.
\<close>

definition digits :: "nat \<Rightarrow> string \<Rightarrow> bool" where
  "digits n s \<longleftrightarrow> length s = n \<and> list_all is_digit s"

definition utc_timestamp_text :: "string \<Rightarrow> bool" where
  "utc_timestamp_text s \<longleftrightarrow>
     (\<exists>YYYY MM DD hh mm ss fraction.
        s = YYYY @ ''-'' @ MM @ ''-'' @ DD @ ''T'' @ hh @ '':'' @ mm @ '':'' @ ss @ fraction @ ''Z''
        \<and> digits 4 YYYY \<and> digits 2 MM \<and> digits 2 DD \<and> digits 2 hh \<and> digits 2 mm \<and> digits 2 ss
        \<and> (fraction = [] \<or>
            (\<exists>f. fraction = ''.'' @ f \<and> 1 \<le> length f \<and> length f \<le> 3 \<and> list_all is_digit f)))"

fun coerce_dates :: "'n json \<Rightarrow> 'n json" where
  "coerce_dates (JString s) = (if utc_timestamp_text s then JDate s else JString s)"
| "coerce_dates (JArray xs) = JArray (map coerce_dates xs)"
| "coerce_dates (JObject ps) = JObject (map (\<lambda>(name, x). (name, coerce_dates x)) ps)"
| "coerce_dates v = v"

definition coerces_by_default :: "((DocumentParseOptions, 'c) optionsOrCallback \<Rightarrow> 'n json \<Rightarrow> 'n json) \<Rightarrow> bool" where
  "coerces_by_default parser \<longleftrightarrow>
     (\<forall>callback opts response.
        parser Undefined response = coerce_dates response
        \<and> parser (Callback callback) response = coerce_dates response
        \<and> parser (Options (opts\<lparr>parseDates := None\<rparr>)) response = coerce_dates response
        \<and> parser (Options (opts\<lparr>parseDates := Some True\<rparr>)) response = coerce_dates response
        \<and> parser (Options (opts\<lparr>parseDates := Some False\<rparr>)) response = response)"

text \<open>
  On a log of requests: the results a logged outcome carries; a log on which every request
  succeeded and whose results, in order, make up \<open>results\<close>; and a log that stops at a
  rejected request, every earlier request having succeeded and \<open>results\<close> holding the
  results of those earlier requests.
\<close>

definition response_values :: "'e + 'r IndexingResults AzureSearchResponse \<Rightarrow> 'r list" where
  "response_values outcome = (case outcome of Inl _ \<Rightarrow> [] | Inr resp \<Rightarrow> value' (result resp))"

definition gathered :: "'r list \<Rightarrow> ('q \<times> ('e + 'r IndexingResults AzureSearchResponse)) list \<Rightarrow> bool" where
  "gathered results tr \<longleftrightarrow>
     list_all succeeded (map snd tr) \<and> results = concat (map (response_values \<circ> snd) tr)"

definition stopped_at_failure :: "'e \<Rightarrow> 'r list \<Rightarrow> ('q \<times> ('e + 'r IndexingResults AzureSearchResponse)) list \<Rightarrow> bool" where
  "stopped_at_failure err results tr \<longleftrightarrow>
     tr \<noteq> [] \<and> snd (last tr) = Inl err \<and> gathered results (butlast tr)"




section \<open>Example inputs\<close>

text \<open>
  Documents are numbers, the serialized size of a document is the number itself, and the
  result for a document is the document. The limits are those of the end-to-end scenarios.
  The outside world counts the requests made so far; \<open>failing_requester k\<close> rejects the
  request made when \<open>k\<close> requests have been made before, \<open>echo_requester\<close> never rejects.
\<close>

definition example_limits :: limits where
  "example_limits = \<lparr>maxBatchCount = 2, maxBatchBytes = 1000\<rparr>"

definition example_size :: "nat \<Rightarrow> nat" where
  "example_size d = d"

definition echo_requester :: "(nat list, string, nat, nat) requester" where
  "echo_requester req options w = (Inr \<lparr>result = \<lparr>value' = body req\<rparr>, statusCode = 200\<rparr>, Suc w)"

definition failing_requester :: "nat \<Rightarrow> (nat list, string, nat, nat) requester" where
  "failing_requester k req options w =
     (if w = k then (Inl ''unavailable'', Suc w)
      else (Inr \<lparr>result = \<lparr>value' = body req\<rparr>, statusCode = 200\<rparr>, Suc w))"

definition echo_handler :: "(nat, string, nat, nat) flushHandler" where
  "echo_handler batch s = (Inr batch, Suc s)"

section \<open>The accumulator: what each call does to the log and the pending batch\<close>

lemma logged_apply: "logged f a (tr, s) = (fst (f a s), (tr @ [(a, fst (f a s))], snd (f a s)))"
  by (simp add: logged_def split: prod.split)

lemma operations_empty: "operations empty_batch = []"
  by (simp add: empty_batch_def)

lemma accounted_empty: "accounted sz empty_batch"
  by (simp add: accounted_def empty_batch_def)

lemma batch_ok_Nil: "batch_ok lim sz []"
  by (simp add: batch_ok_def within_limits_def)

lemma buffer_inv_empty: "buffer_inv lim sz empty_batch"
  by (simp add: buffer_inv_def accounted_empty batch_ok_Nil operations_empty)

lemma buffer_methods:
  "initial (IndexBuffer lim sz args) = empty_batch"
  "add (IndexBuffer lim sz args) = IndexBuffer_add (limits_in_force lim args) sz (flushHandler args)"
  "flush (IndexBuffer lim sz args) = IndexBuffer_flush (flushHandler args)"
  by (simp_all add: IndexBuffer_def)

lemma flush_logged_cases:
  assumes "IndexBuffer_flush (logged h) b (tr, s) = (r, b', (tr', s'))"
  shows "(operations b = [] \<and> r = Inr [] \<and> b' = b \<and> tr' = tr \<and> s' = s) \<or>
         (operations b \<noteq> [] \<and> b' = empty_batch \<and> tr' = tr @ [(operations b, r)] \<and>
            r = fst (h (operations b) s) \<and> s' = snd (h (operations b) s))"
  using assms by (auto simp: IndexBuffer_flush_def logged_apply split: if_splits)

lemma add_logged_cases:
  assumes "IndexBuffer_add lim sz (logged h) d b (tr, s) = (r, b', (tr', s'))"
  shows "(tr' = tr \<and> s' = s \<and> r = Inr [] \<and>
            (b' = append_operation sz d b \<and> \<not> would_breach lim sz b d
             \<or> b' = append_operation sz d b \<and> operations b = [])) \<or>
         (operations b \<noteq> [] \<and> tr' = tr @ [(operations b, r)] \<and>
            r = fst (h (operations b) s) \<and> s' = snd (h (operations b) s) \<and>
            (if succeeded r then b' = append_operation sz d empty_batch else b' = empty_batch))"
  using assms
  by (auto simp: IndexBuffer_add_def IndexBuffer_flush_def logged_apply succeeded_def
      split: if_splits sum.splits prod.splits)

lemma append_accounted: "accounted sz b \<Longrightarrow> accounted sz (append_operation sz d b)"
  by (simp add: accounted_def append_operation_def)

lemma append_ok:
  assumes "accounted sz b" "\<not> would_breach lim sz b d"
  shows "batch_ok lim sz (operations (append_operation sz d b))"
  using assms
  by (simp add: accounted_def append_operation_def would_breach_def batch_ok_def within_limits_def)

lemma append_empty_ok:
  assumes "0 < maxBatchCount lim"
  shows "batch_ok lim sz (operations (append_operation sz d empty_batch))"
  using assms
  by (auto simp: append_operation_def empty_batch_def batch_ok_def within_limits_def single_oversized_def)

lemma append_on_empty:
  assumes "accounted sz b" "operations b = []"
  shows "append_operation sz d b = append_operation sz d empty_batch"
  using assms by (simp add: accounted_def append_operation_def empty_batch_def)

lemma add_keeps_inv:
  assumes "0 < maxBatchCount lim" "buffer_inv lim sz b"
    and "IndexBuffer_add lim sz (logged h) d b (tr, s) = (r, b', (tr', s'))"
  shows "buffer_inv lim sz b'"
proof -
  from assms(2) have acc: "accounted sz b" by (simp add: buffer_inv_def)
  from add_logged_cases[OF assms(3)] consider
      "b' = append_operation sz d b" "\<not> would_breach lim sz b d"
    | "b' = append_operation sz d b" "operations b = []"
    | "b' = append_operation sz d empty_batch"
    | "b' = empty_batch"
    by (auto split: if_splits)
  then show ?thesis
  proof cases
    case 1
    then show ?thesis using acc by (simp add: buffer_inv_def append_accounted append_ok)
  next
    case 2
    then have "b' = append_operation sz d empty_batch" using acc by (simp add: append_on_empty)
    then show ?thesis using assms(1)
      by (simp add: buffer_inv_def append_accounted accounted_empty append_empty_ok)
  next
    case 3
    then show ?thesis using assms(1)
      by (simp add: buffer_inv_def append_accounted accounted_empty append_empty_ok)
  next
    case 4
    then show ?thesis by (simp add: buffer_inv_empty)
  qed
qed

lemma flush_keeps_inv:
  assumes "buffer_inv lim sz b" "IndexBuffer_flush (logged h) b (tr, s) = (r, b', (tr', s'))"
  shows "buffer_inv lim sz b'"
  using flush_logged_cases[OF assms(2)] assms(1) by (auto simp: buffer_inv_empty)

lemma add_sends_ok:
  assumes "buffer_inv lim sz b" "list_all (batch_ok lim sz) (map fst tr)"
    and "IndexBuffer_add lim sz (logged h) d b (tr, s) = (r, b', (tr', s'))"
  shows "list_all (batch_ok lim sz) (map fst tr')"
  using add_logged_cases[OF assms(3)] assms(1,2) by (auto simp: buffer_inv_def)

lemma flush_sends_ok:
  assumes "buffer_inv lim sz b" "list_all (batch_ok lim sz) (map fst tr)"
    and "IndexBuffer_flush (logged h) b (tr, s) = (r, b', (tr', s'))"
  shows "list_all (batch_ok lim sz) (map fst tr')"
  using flush_logged_cases[OF assms(3)] assms(1,2) by (auto simp: buffer_inv_def)

lemma add_keeps_all:
  assumes "accounted sz b" "list_all succeeded (map snd tr')"
    and "IndexBuffer_add lim sz (logged h) d b (tr, s) = (r, b', (tr', s'))"
  shows "concat (map fst tr') @ operations b' = concat (map fst tr) @ operations b @ [d]"
  using add_logged_cases[OF assms(3)] assms(1,2)
  by (auto simp: append_operation_def empty_batch_def split: if_splits)

lemma flush_keeps_all:
  assumes "IndexBuffer_flush (logged h) b (tr, s) = (r, b', (tr', s'))"
  shows "concat (map fst tr') @ operations b' = concat (map fst tr) @ operations b"
  using flush_logged_cases[OF assms] by (auto simp: empty_batch_def)

lemma add_extends_log:
  assumes "IndexBuffer_add lim sz (logged h) d b (tr, s) = (r, b', (tr', s'))"
  shows "prefix tr tr'"
  using add_logged_cases[OF assms] by auto

lemma flush_extends_log:
  assumes "IndexBuffer_flush (logged h) b (tr, s) = (r, b', (tr', s'))"
  shows "prefix tr tr'"
  using flush_logged_cases[OF assms] by auto

lemma run_calls_step:
  assumes "add buffer = IndexBuffer_add lim sz (logged h)" "flush buffer = IndexBuffer_flush (logged h)"
    and "run_calls buffer (c # calls) b (tr, s) = (b', (tr', s'))"
  obtains (Add) d r b1 tr1 s1 where "c = Add d"
      "IndexBuffer_add lim sz (logged h) d b (tr, s) = (r, b1, (tr1, s1))"
      "run_calls buffer calls b1 (tr1, s1) = (b', (tr', s'))"
  | (Flush) r b1 tr1 s1 where "c = Flush"
      "IndexBuffer_flush (logged h) b (tr, s) = (r, b1, (tr1, s1))"
      "run_calls buffer calls b1 (tr1, s1) = (b', (tr', s'))"
proof (cases c)
  case (Add d)
  obtain r b1 tr1 s1 where "IndexBuffer_add lim sz (logged h) d b (tr, s) = (r, b1, (tr1, s1))"
    by (metis prod_cases3)
  with assms Add that(1) show ?thesis by simp
next
  case Flush
  obtain r b1 tr1 s1 where "IndexBuffer_flush (logged h) b (tr, s) = (r, b1, (tr1, s1))"
    by (metis prod_cases3)
  with assms Flush that(2) show ?thesis by simp
qed

lemma run_calls_extends_log:
  assumes "add buffer = IndexBuffer_add lim sz (logged h)" "flush buffer = IndexBuffer_flush (logged h)"
    and "run_calls buffer calls b (tr, s) = (b', (tr', s'))"
  shows "prefix tr tr'"
  using assms(3)
proof (induction calls arbitrary: b tr s)
  case Nil
  then show ?case by simp
next
  case (Cons c calls)
  from assms(1,2) Cons.prems show ?case
  proof (cases rule: run_calls_step)
    case (Add d r b1 tr1 s1)
    from Cons.IH[OF Add(3)] add_extends_log[OF Add(2)] show ?thesis
      by (rule prefix_order.trans[rotated])
  next
    case (Flush r b1 tr1 s1)
    from Cons.IH[OF Flush(3)] flush_extends_log[OF Flush(2)] show ?thesis
      by (rule prefix_order.trans[rotated])
  qed
qed

lemma run_calls_inv:
  assumes "add buffer = IndexBuffer_add lim sz (logged h)" "flush buffer = IndexBuffer_flush (logged h)"
    and "0 < maxBatchCount lim"
    and "buffer_inv lim sz b" "list_all (batch_ok lim sz) (map fst tr)"
    and "run_calls buffer calls b (tr, s) = (b', (tr', s'))"
  shows "buffer_inv lim sz b' \<and> list_all (batch_ok lim sz) (map fst tr')"
  using assms(4-)
proof (induction calls arbitrary: b tr s)
  case Nil
  then show ?case by simp
next
  case (Cons c calls)
  from assms(1,2) Cons.prems(3) show ?case
  proof (cases rule: run_calls_step)
    case (Add d r b1 tr1 s1)
    show ?thesis
      using Cons.IH[OF add_keeps_inv[OF assms(3) Cons.prems(1) Add(2)]
          add_sends_ok[OF Cons.prems(1,2) Add(2)] Add(3)] .
  next
    case (Flush r b1 tr1 s1)
    show ?thesis
      using Cons.IH[OF flush_keeps_inv[OF Cons.prems(1) Flush(2)]
          flush_sends_ok[OF Cons.prems(1,2) Flush(2)] Flush(3)] .
  qed
qed

lemma prefix_all_succeeded:
  assumes "prefix tr1 tr'" "list_all succeeded (map snd tr')"
  shows "list_all succeeded (map snd tr1)"
  using assms by (auto simp: prefix_def)

lemma run_calls_keeps_all:
  assumes "add buffer = IndexBuffer_add lim sz (logged h)" "flush buffer = IndexBuffer_flush (logged h)"
    and "0 < maxBatchCount lim" "list_all succeeded (map snd tr')"
    and "buffer_inv lim sz b"
    and "run_calls buffer calls b (tr, s) = (b', (tr', s'))"
  shows "concat (map fst tr') @ operations b' = concat (map fst tr) @ operations b @ added calls"
  using assms(5,6)
proof (induction calls arbitrary: b tr s)
  case Nil
  then show ?case by simp
next
  case (Cons c calls)
  from assms(1,2) Cons.prems(2) show ?case
  proof (cases rule: run_calls_step)
    case (Add d r b1 tr1 s1)
    have ok1: "list_all succeeded (map snd tr1)"
      using prefix_all_succeeded[OF run_calls_extends_log[OF assms(1,2) Add(3)] assms(4)] .
    have acc: "accounted sz b" using Cons.prems(1) by (simp add: buffer_inv_def)
    show ?thesis
      using Cons.IH[OF add_keeps_inv[OF assms(3) Cons.prems(1) Add(2)] Add(3)]
        add_keeps_all[OF acc ok1 Add(2)] Add(1)
      by simp
  next
    case (Flush r b1 tr1 s1)
    show ?thesis
      using Cons.IH[OF flush_keeps_inv[OF Cons.prems(1) Flush(2)] Flush(3)]
        flush_keeps_all[OF Flush(2)] Flush(1)
      by simp
  qed
qed

lemma oversized_alone:
  assumes "batch_ok lim sz batch" "d \<in> set batch" "maxBatchBytes lim < sz d"
  shows "batch = [d]"
proof -
  from assms(2) have "sz d \<le> sum_list (map sz batch)"
    by (simp add: member_le_sum_list)
  with assms(3) have "\<not> within_limits lim sz batch" by (simp add: within_limits_def)
  with assms(1) have "single_oversized lim sz batch" by (simp add: batch_ok_def)
  then obtain x where "batch = [x]"
    by (auto simp: single_oversized_def split: list.splits)
  with assms(2) show ?thesis by simp
qed

text \<open>
  C2. Whatever sequence of \<open>add\<close> and \<open>flush\<close> calls is made on a fresh accumulator with a
  positive count limit, and whether or not the transport fails: every batch handed to the
  flush transport is within both limits, or is a single document larger than the byte
  limit; a document larger than the byte limit is alone in its batch; and as long as the
  transport has not failed, the batches handed over, followed by the pending batch, are
  exactly the documents added, in order: none is dropped.
\<close>

theorem flushed_batches_within_limits:
  assumes "0 < maxBatchCount lim"
    and "run_calls (IndexBuffer lim sz \<lparr>flushHandler = logged h, limits_arg = None\<rparr>) calls
           (initial (IndexBuffer lim sz \<lparr>flushHandler = logged h, limits_arg = None\<rparr>)) ([], s)
         = (b', (tr, s'))"
  shows "list_all (batch_ok lim sz) (map fst tr)
       \<and> (\<forall>batch \<in> set (map fst tr). \<forall>d \<in> set batch. maxBatchBytes lim < sz d \<longrightarrow> batch = [d])
       \<and> (list_all succeeded (map snd tr) \<longrightarrow> concat (map fst tr) @ operations b' = added calls)
       \<and> batch_ok lim sz (operations b')"
proof -
  let ?buffer = "IndexBuffer lim sz \<lparr>flushHandler = logged h, limits_arg = None\<rparr>"
  have m: "add ?buffer = IndexBuffer_add lim sz (logged h)" "flush ?buffer = IndexBuffer_flush (logged h)"
    by (simp_all add: buffer_methods limits_in_force_def)
  from assms(2) have run: "run_calls ?buffer calls empty_batch ([], s) = (b', (tr, s'))"
    by (simp add: buffer_methods)
  from run_calls_inv[OF m assms(1) buffer_inv_empty _ run]
  have inv: "buffer_inv lim sz b'" and ok: "list_all (batch_ok lim sz) (map fst tr)" by simp_all
  have alone: "\<forall>batch \<in> set (map fst tr). \<forall>d \<in> set batch. maxBatchBytes lim < sz d \<longrightarrow> batch = [d]"
    using ok oversized_alone[of lim sz] by (auto simp: list_all_iff)
  have all: "list_all succeeded (map snd tr) \<longrightarrow> concat (map fst tr) @ operations b' = added calls"
  proof
    assume "list_all succeeded (map snd tr)"
    from run_calls_keeps_all[OF m assms(1) this buffer_inv_empty run]
    show "concat (map fst tr) @ operations b' = added calls" by (simp add: operations_empty)
  qed
  from ok alone all inv show ?thesis by (simp add: buffer_inv_def)
qed

theorem flushed_batches_within_limits_witness:
  "0 < maxBatchCount example_limits
   \<and> run_calls (IndexBuffer example_limits example_size \<lparr>flushHandler = logged echo_handler, limits_arg = None\<rparr>)
        [Add 1, Add 2, Add 5000, Add 3, Flush]
        (initial (IndexBuffer example_limits example_size \<lparr>flushHandler = logged echo_handler, limits_arg = None\<rparr>)) ([], 0)
      = (empty_batch, ([([1, 2], Inr [1, 2]), ([5000], Inr [5000]), ([3], Inr [3])], 3))
   \<and> list_all (batch_ok example_limits example_size) [[1, 2], [5000], [3]]
   \<and> concat [[1, 2], [5000], [3]] @ operations (empty_batch :: nat PendingBatch) = added [Add 1, Add 2, Add 5000, Add 3, Flush]"
proof -
  have pos: "0 < maxBatchCount example_limits" by (simp add: example_limits_def)
  have run: "run_calls (IndexBuffer example_limits example_size \<lparr>flushHandler = logged echo_handler, limits_arg = None\<rparr>)
        [Add 1, Add 2, Add 5000, Add 3, Flush]
        (initial (IndexBuffer example_limits example_size \<lparr>flushHandler = logged echo_handler, limits_arg = None\<rparr>)) ([], 0)
      = (empty_batch, ([([1, 2], Inr [1, 2]), ([5000], Inr [5000]), ([3], Inr [3])], 3))"
    by (simp add: IndexBuffer_def limits_in_force_def IndexBuffer_add_def IndexBuffer_flush_def
        would_breach_def append_operation_def empty_batch_def logged_def echo_handler_def
        example_limits_def example_size_def)
  from flushed_batches_within_limits[OF pos run] pos run show ?thesis
    by (simp add: succeeded_def)
qed

text \<open>
  C7. \<open>flush\<close> on an accumulator whose pending batch is empty returns the empty list, and
  leaves the batch, the log of transport calls and the outside world as they were: the
  transport is not called, so flushing again changes nothing either. On a non-empty pending
  batch it calls the transport once, with exactly the pending batch, returns what the
  transport returns, and leaves an empty pending batch.
\<close>

theorem flush_of_empty_batch_is_noop:
  assumes "buffer = IndexBuffer lim sz \<lparr>flushHandler = logged h, limits_arg = la\<rparr>"
  shows "(operations b = [] \<longrightarrow> flush buffer b (tr, s) = (Inr [], b, (tr, s)))
       \<and> flush buffer (initial buffer) (tr, s) = (Inr [], initial buffer, (tr, s))
       \<and> (operations b \<noteq> [] \<longrightarrow>
            flush buffer b (tr, s) =
              (fst (h (operations b) s), empty_batch,
               (tr @ [(operations b, fst (h (operations b) s))], snd (h (operations b) s))))
       \<and> operations (fst (snd (flush buffer b (tr, s)))) = []"
  using assms
  by (simp add: buffer_methods IndexBuffer_flush_def logged_apply operations_empty split: prod.splits)

theorem flush_of_empty_batch_is_noop_witness:
  "flush (IndexBuffer example_limits example_size \<lparr>flushHandler = logged echo_handler, limits_arg = None\<rparr>)
      empty_batch ([], 0) = (Inr [], empty_batch, ([], 0))
   \<and> flush (IndexBuffer example_limits example_size \<lparr>flushHandler = logged echo_handler, limits_arg = None\<rparr>)
      \<lparr>operations = [1, 2], count = 2, estimatedSize = 3\<rparr> ([], 0)
     = (Inr [1, 2], empty_batch, ([([1, 2], Inr [1, 2])], 1))"
  using flush_of_empty_batch_is_noop[of
      "IndexBuffer example_limits example_size \<lparr>flushHandler = logged echo_handler, limits_arg = None\<rparr>"
      example_limits example_size echo_handler None empty_batch "[]" 0]
    flush_of_empty_batch_is_noop[of
      "IndexBuffer example_limits example_size \<lparr>flushHandler = logged echo_handler, limits_arg = None\<rparr>"
      example_limits example_size echo_handler None "\<lparr>operations = [1, 2], count = 2, estimatedSize = 3\<rparr>" "[]" 0]
  by (simp add: operations_empty echo_handler_def)

section \<open>Batch mode: results against documents\<close>

lemma index_handler_answers:
  assumes "well_answered answers request"
    and "index_flushHandler request options data (rs, w) = (Inr x, (rs', w'))"
  shows "\<exists>vs. rs' = rs @ vs \<and> list_all2 answers data vs"
proof -
  obtain out w1 where call: "request (docs_index_request data) options w = (out, w1)"
    by (cases "request (docs_index_request data) options w")
  with assms(2) obtain resp where "out = Inr resp" "rs' = rs @ value' (result resp)"
    by (cases out) (auto simp: index_flushHandler_def)
  moreover from this call assms(1)
  have "list_all2 answers (body (docs_index_request data)) (value' (result resp))"
    unfolding well_answered_def by blast
  ultimately show ?thesis by (auto simp: docs_index_request_def)
qed

lemma index_flush_answers:
  assumes "well_answered answers request"
    and "IndexBuffer_flush (index_flushHandler request options) b (rs, w) = (Inr x, b', (rs', w'))"
    and "list_all2 answers F rs"
  shows "list_all2 answers (F @ operations b) rs' \<and> operations b' = []"
proof (cases "operations b = []")
  case True
  with assms(2,3) show ?thesis by (simp add: IndexBuffer_flush_def)
next
  case False
  with assms(2)
  have h: "index_flushHandler request options (operations b) (rs, w) = (Inr x, (rs', w'))"
    and b': "b' = empty_batch"
    by (auto simp: IndexBuffer_flush_def split: prod.splits)
  from index_handler_answers[OF assms(1) h]
  obtain vs where "rs' = rs @ vs" "list_all2 answers (operations b) vs"
    by blast
  with assms(3) b' show ?thesis by (simp add: list_all2_appendI empty_batch_def)
qed

lemma index_add_answers:
  assumes "well_answered answers request"
    and "IndexBuffer_add lim sz (index_flushHandler request options) d b (rs, w) = (Inr x, b', (rs', w'))"
    and "list_all2 answers F rs"
  shows "\<exists>F'. list_all2 answers F' rs' \<and> F' @ operations b' = F @ operations b @ [d]"
proof (cases "would_breach lim sz b d")
  case False
  with assms(2,3) show ?thesis by (auto simp: IndexBuffer_add_def append_operation_def)
next
  case True
  obtain r b1 rs1 w1
    where fl: "IndexBuffer_flush (index_flushHandler request options) b (rs, w) = (r, b1, (rs1, w1))"
    by (metis prod_cases3)
  with True assms(2) obtain y
    where r: "r = Inr y" and b': "b' = append_operation sz d b1" and eq: "rs' = rs1"
    by (cases r) (auto simp: IndexBuffer_add_def)
  from index_flush_answers[OF assms(1) fl[unfolded r] assms(3)]
  have "list_all2 answers (F @ operations b) rs1" "operations b1 = []" by auto
  with b' eq show ?thesis by (auto simp: append_operation_def)
qed

lemma index_loop_answers:
  assumes "well_answered answers request"
    and "add buffer = IndexBuffer_add lim sz (index_flushHandler request options)"
    and "index_loop buffer ds b (rs, w) = (Inr b', (rs', w'))"
    and "list_all2 answers F rs"
  shows "\<exists>F'. list_all2 answers F' rs' \<and> F' @ operations b' = F @ operations b @ ds"
  using assms(3,4)
proof (induction ds arbitrary: b rs w F)
  case Nil
  then show ?case by auto
next
  case (Cons d ds)
  obtain r b1 rs1 w1
    where step: "IndexBuffer_add lim sz (index_flushHandler request options) d b (rs, w) = (r, b1, (rs1, w1))"
    by (metis prod_cases3)
  with Cons.prems(1) assms(2) obtain y where r: "r = Inr y"
    and rest: "index_loop buffer ds b1 (rs1, w1) = (Inr b', (rs', w'))"
    by (cases r) auto
  from index_add_answers[OF assms(1) step[unfolded r] Cons.prems(2)]
  obtain F1 where F1: "list_all2 answers F1 rs1" "F1 @ operations b1 = F @ operations b @ [d]"
    by blast
  from Cons.IH[OF rest F1(1)]
  obtain F' where "list_all2 answers F' rs'" "F' @ operations b' = F1 @ operations b1 @ ds"
    by blast
  with F1(2) show ?case by (metis append.assoc append_Cons append_Nil)
qed

text \<open>
  C1. Let the remote service answer every indexing request it accepts with one result per
  operation of the request, in order. Then a batch-mode \<open>index\<close> that completes without a
  transport error returns exactly one result per submitted document, and the results stand
  in the order of the documents, each being the result for the document at its position,
  whatever the flush boundaries were.
\<close>

theorem index_results_match_documents:
  assumes "well_answered answers request"
    and "index (IndexBuffer lim sz) request documents optionsOrCallback w = (Inr results, w')"
  shows "length results = length documents \<and> list_all2 answers documents results"
proof -
  define buffer where "buffer = index_buffer (IndexBuffer lim sz) request optionsOrCallback"
  define options where "options = index_options optionsOrCallback"
  have m_add: "add buffer = IndexBuffer_add lim sz (index_flushHandler request options)"
    and m_flush: "flush buffer = IndexBuffer_flush (index_flushHandler request options)"
    and m_init: "initial buffer = empty_batch"
    by (simp_all add: buffer_def options_def index_buffer_def buffer_methods index_buffer_args_def
        limits_in_force_def)
  obtain out1 rs1 w1 where loop: "index_loop buffer documents empty_batch ([], w) = (out1, (rs1, w1))"
    by (metis prod_cases3)
  from assms(2) loop obtain b1 where out1: "out1 = Inr b1"
    by (cases out1) (auto simp: index_def index_run_def Let_def buffer_def[symmetric] m_init)
  obtain out2 b2 rs2 w2
    where fl: "IndexBuffer_flush (index_flushHandler request options) b1 (rs1, w1) = (out2, b2, (rs2, w2))"
    by (metis prod_cases3)
  from assms(2) loop out1 fl obtain y where out2: "out2 = Inr y" and res: "results = rs2"
    by (cases out2) (auto simp: index_def index_run_def Let_def buffer_def[symmetric] m_init m_flush)
  from index_loop_answers[OF assms(1) m_add loop[unfolded out1], of "[]"]
  obtain F1 where F1: "list_all2 answers F1 rs1" "F1 @ operations b1 = documents"
    by (auto simp: empty_batch_def)
  from index_flush_answers[OF assms(1) fl[unfolded out2] F1(1)] F1(2) res
  have "list_all2 answers documents results" by auto
  then show ?thesis by (simp add: list_all2_lengthD)
qed

theorem index_results_match_documents_witness:
  "well_answered (=) echo_requester
   \<and> index (IndexBuffer example_limits example_size) echo_requester [1, 2, 3] (Undefined :: (SearchOptions, unit) optionsOrCallback) 0
       = (Inr [1, 2, 3], 2)
   \<and> length [1, 2, 3 :: nat] = length [1, 2, 3 :: nat]
   \<and> list_all2 (=) [1, 2, 3 :: nat] [1, 2, 3 :: nat]"
proof -
  have wa: "well_answered (=) echo_requester"
    by (auto simp: well_answered_def echo_requester_def list_all2_same)
  have run: "index (IndexBuffer example_limits example_size) echo_requester [1, 2, 3]
               (Undefined :: (SearchOptions, unit) optionsOrCallback) 0 = (Inr [1, 2, 3], 2)"
    by (simp add: index_def index_run_def index_buffer_def index_options_def index_buffer_args_def
        IndexBuffer_def limits_in_force_def IndexBuffer_add_def IndexBuffer_flush_def
        would_breach_def append_operation_def empty_batch_def index_flushHandler_def
        docs_index_request_def echo_requester_def example_limits_def example_size_def)
  from index_results_match_documents[OF wa run] wa run show ?thesis by simp
qed

section \<open>Batch mode: failure\<close>

lemma index_loop_append:
  "index_loop buffer (ds1 @ ds2) b s =
     (case index_loop buffer ds1 b s of
        (Inl e, s') \<Rightarrow> (Inl e, s')
      | (Inr b1, s1) \<Rightarrow> index_loop buffer ds2 b1 s1)"
  by (induction ds1 arbitrary: b s) (auto split: prod.splits sum.splits)

lemma index_loop_fails:
  assumes "index_loop buffer ds b s = (Inl e, s')"
  shows "\<exists>ds1 d ds2 b1 s1 b2. ds = ds1 @ d # ds2 \<and> index_loop buffer ds1 b s = (Inr b1, s1) \<and>
           add buffer d b1 s1 = (Inl e, b2, s')"
  using assms
proof (induction ds arbitrary: b s)
  case Nil
  then show ?case by simp
next
  case (Cons d ds)
  obtain r b1 s1 where step: "add buffer d b s = (r, b1, s1)" by (metis prod_cases3)
  show ?case
  proof (cases r)
    case (Inl e')
    with Cons.prems step have "e' = e" "s1 = s'" by auto
    with step Inl
    have "d # ds = [] @ d # ds \<and> index_loop buffer [] b s = (Inr b, s) \<and>
        add buffer d b s = (Inl e, b1, s')"
      by simp
    then show ?thesis by blast
  next
    case (Inr y)
    with Cons.prems step have "index_loop buffer ds b1 s1 = (Inl e, s')" by simp
    from Cons.IH[OF this] obtain ds1 d' ds2 b2 s2 b3 where
      "ds = ds1 @ d' # ds2" "index_loop buffer ds1 b1 s1 = (Inr b2, s2)"
      "add buffer d' b2 s2 = (Inl e, b3, s')"
      by blast
    with step Inr
    have "d # ds = (d # ds1) @ d' # ds2 \<and> index_loop buffer (d # ds1) b s = (Inr b2, s2) \<and>
        add buffer d' b2 s2 = (Inl e, b3, s')"
      by simp
    then show ?thesis by blast
  qed
qed

lemma index_run_unfold:
  "index_run IB request documents ooc w =
     (case index_loop (index_buffer IB request ooc) documents (initial (index_buffer IB request ooc)) ([], w) of
        (Inl err, (results, w')) \<Rightarrow> (Inl err, results, w')
      | (Inr b, s) \<Rightarrow>
          (case flush (index_buffer IB request ooc) b s of
             (Inl err, _, (results, w')) \<Rightarrow> (Inl err, results, w')
           | (Inr _, _, (results, w')) \<Rightarrow> (Inr (), results, w')))"
  unfolding index_run_def Let_def by (rule refl)

lemma index_add_failure:
  assumes "documents = ds1 @ d # ds2"
    and "index_loop (index_buffer IB request ooc) ds1 (initial (index_buffer IB request ooc)) ([], w) = (Inr b1, s1)"
    and "add (index_buffer IB request ooc) d b1 s1 = (Inl e, b2, (results, w'))"
  shows "index_run IB request documents ooc w = (Inl e, results, w')"
  using assms by (simp add: index_run_unfold index_loop_append)

lemma index_flush_failure:
  assumes "index_loop (index_buffer IB request ooc) documents (initial (index_buffer IB request ooc)) ([], w) = (Inr b, s)"
    and "flush (index_buffer IB request ooc) b s = (Inl e, b', (results, w'))"
  shows "index_run IB request documents ooc w = (Inl e, results, w')"
  using assms by (simp add: index_run_unfold)

lemma index_of_run:
  "index IB request documents ooc w =
     (case index_run IB request documents ooc w of
        (Inl err, results, w') \<Rightarrow> (Inl err, w')
      | (Inr _, results, w') \<Rightarrow> (Inr results, w'))"
  by (simp add: index_def)

lemma index_failure_origin:
  assumes "index_run IB request documents ooc w = (Inl e, results, w')"
  shows "(\<exists>ds1 d ds2 b1 s1 b2. documents = ds1 @ d # ds2 \<and>
            index_loop (index_buffer IB request ooc) ds1 (initial (index_buffer IB request ooc)) ([], w) = (Inr b1, s1) \<and>
            add (index_buffer IB request ooc) d b1 s1 = (Inl e, b2, (results, w'))) \<or>
         (\<exists>b s b'. index_loop (index_buffer IB request ooc) documents (initial (index_buffer IB request ooc)) ([], w) = (Inr b, s) \<and>
            flush (index_buffer IB request ooc) b s = (Inl e, b', (results, w')))"
proof -
  let ?buf = "index_buffer IB request ooc"
  obtain out s1 where loop: "index_loop ?buf documents (initial ?buf) ([], w) = (out, s1)"
    by (cases "index_loop ?buf documents (initial ?buf) ([], w)")
  show ?thesis
  proof (cases out)
    case (Inl e')
    with assms loop have "e' = e" "s1 = (results, w')"
      by (auto simp: index_run_unfold split: prod.splits)
    with loop Inl index_loop_fails[of ?buf documents "initial ?buf" "([], w)" e "(results, w')"]
    show ?thesis by blast
  next
    case (Inr b)
    obtain r b' rs2 w2 where fl: "flush ?buf b s1 = (r, b', (rs2, w2))" by (metis prod_cases3)
    with assms loop Inr have "r = Inl e" "rs2 = results" "w2 = w'"
      by (auto simp: index_run_unfold split: sum.splits)
    with loop Inr fl show ?thesis by blast
  qed
qed

subsection \<open>With the accumulator of the spec, on the log of requests\<close>

lemma traced_apply:
  "traced request req options (tr, w) =
     (fst (request req options w), (tr @ [(req, fst (request req options w))], snd (request req options w)))"
  by (simp add: traced_def logged_apply)

lemma gathered_Nil: "gathered [] []"
  by (simp add: gathered_def)

lemma index_handler_traced:
  assumes "index_flushHandler (traced request) options data (rs, (tr, w)) = (out, (rs', (tr', w')))"
    and "gathered rs tr"
  shows "(case out of Inl e \<Rightarrow> stopped_at_failure e rs' tr' | Inr _ \<Rightarrow> gathered rs' tr')"
  using assms
  by (cases "fst (request (docs_index_request data) options w)")
    (auto simp: index_flushHandler_def traced_apply gathered_def stopped_at_failure_def
      response_values_def succeeded_def)

lemma index_flush_traced:
  assumes "IndexBuffer_flush (index_flushHandler (traced request) options) b (rs, (tr, w)) = (out, b', (rs', (tr', w')))"
    and "gathered rs tr"
  shows "(case out of Inl e \<Rightarrow> stopped_at_failure e rs' tr' | Inr _ \<Rightarrow> gathered rs' tr')"
proof (cases "operations b = []")
  case True
  with assms show ?thesis by (auto simp: IndexBuffer_flush_def)
next
  case False
  with assms(1)
  have "index_flushHandler (traced request) options (operations b) (rs, (tr, w)) = (out, (rs', (tr', w')))"
    by (auto simp: IndexBuffer_flush_def split: prod.splits)
  from index_handler_traced[OF this assms(2)] show ?thesis .
qed

lemma index_add_traced:
  assumes "IndexBuffer_add lim sz (index_flushHandler (traced request) options) d b (rs, (tr, w)) = (out, b', (rs', (tr', w')))"
    and "gathered rs tr"
  shows "(case out of Inl e \<Rightarrow> stopped_at_failure e rs' tr' | Inr _ \<Rightarrow> gathered rs' tr')"
proof (cases "would_breach lim sz b d")
  case False
  with assms show ?thesis by (auto simp: IndexBuffer_add_def)
next
  case True
  obtain r b1 rs1 tr1 w1
    where fl: "IndexBuffer_flush (index_flushHandler (traced request) options) b (rs, (tr, w)) = (r, b1, (rs1, (tr1, w1)))"
    by (metis prod_cases3)
  from index_flush_traced[OF fl assms(2)] True assms(1) fl show ?thesis
    by (cases r) (auto simp: IndexBuffer_add_def)
qed

lemma index_loop_traced:
  assumes "add buffer = IndexBuffer_add lim sz (index_flushHandler (traced request) options)"
    and "index_loop buffer ds b (rs, (tr, w)) = (out, (rs', (tr', w')))"
    and "gathered rs tr"
  shows "(case out of Inl e \<Rightarrow> stopped_at_failure e rs' tr' | Inr _ \<Rightarrow> gathered rs' tr')"
  using assms(2,3)
proof (induction ds arbitrary: b rs tr w)
  case Nil
  then show ?case by auto
next
  case (Cons d ds)
  obtain r b1 rs1 tr1 w1
    where step: "IndexBuffer_add lim sz (index_flushHandler (traced request) options) d b (rs, (tr, w)) = (r, b1, (rs1, (tr1, w1)))"
    by (metis prod_cases3)
  note one = index_add_traced[OF step Cons.prems(2)]
  show ?case
  proof (cases r)
    case (Inl e)
    with Cons.prems(1) step assms(1) one show ?thesis by auto
  next
    case (Inr y)
    with Cons.prems(1) step assms(1)
    have rest: "index_loop buffer ds b1 (rs1, (tr1, w1)) = (out, (rs', (tr', w')))" by simp
    from one Inr have "gathered rs1 tr1" by simp
    from Cons.IH[OF rest this] show ?thesis .
  qed
qed

lemma index_run_traced:
  assumes "index_run (IndexBuffer lim sz) (traced request) documents optionsOrCallback ([], w) = (out, results, (tr, w'))"
  shows "(case out of Inl e \<Rightarrow> stopped_at_failure e results tr | Inr _ \<Rightarrow> gathered results tr)"
proof -
  define buffer where "buffer = index_buffer (IndexBuffer lim sz) (traced request) optionsOrCallback"
  define options where "options = index_options optionsOrCallback"
  have m_add: "add buffer = IndexBuffer_add lim sz (index_flushHandler (traced request) options)"
    and m_flush: "flush buffer = IndexBuffer_flush (index_flushHandler (traced request) options)"
    by (simp_all add: buffer_def options_def index_buffer_def buffer_methods index_buffer_args_def
        limits_in_force_def)
  obtain out1 rs1 tr1 w1
    where loop: "index_loop buffer documents (initial buffer) ([], ([], w)) = (out1, (rs1, (tr1, w1)))"
    by (metis prod_cases3)
  note L = index_loop_traced[OF m_add loop gathered_Nil]
  show ?thesis
  proof (cases out1)
    case (Inl e)
    with assms loop L show ?thesis
      by (auto simp: index_run_unfold buffer_def[symmetric])
  next
    case (Inr b1)
    obtain out2 b2 rs2 tr2 w2
      where fl: "IndexBuffer_flush (index_flushHandler (traced request) options) b1 (rs1, (tr1, w1)) = (out2, b2, (rs2, (tr2, w2)))"
      by (metis prod_cases3)
    from L Inr have "gathered rs1 tr1" by simp
    from index_flush_traced[OF fl this] assms loop Inr fl show ?thesis
      by (cases out2) (auto simp: index_run_unfold buffer_def[symmetric] m_flush)
  qed
qed


text \<open>
  C3. A batch-mode \<open>index\<close> whose \<open>add\<close> or final \<open>flush\<close> rejects fails as a whole, for any
  accumulator. If the first rejection comes from the \<open>add\<close> of a document, all documents
  before it having been added without error, the caller receives that error and no result
  list, and the operation ends in the state that failing \<open>add\<close> left: no later document is
  submitted and no final flush is made. If every \<open>add\<close> succeeds and the final \<open>flush\<close>
  rejects, the caller receives that error and no result list. A failed \<open>index\<close> always
  arises in one of these two ways. With the accumulator of the spec, on the log of
  requests: the rejected request is the last one made and its error is the one returned,
  every earlier request succeeded, and the \<open>results\<close> array, which the caller does not
  receive, holds the results of exactly those earlier requests, in order.
\<close>

theorem index_fails_as_a_whole:
  "(documents = ds1 @ d # ds2
      \<and> index_loop (index_buffer IB request ooc) ds1 (initial (index_buffer IB request ooc)) ([], w) = (Inr b1, s1)
      \<and> add (index_buffer IB request ooc) d b1 s1 = (Inl e, b2, (results, w'))
     \<longrightarrow> index_run IB request documents ooc w = (Inl e, results, w')
         \<and> index IB request documents ooc w = (Inl e, w'))
   \<and> (index_loop (index_buffer IB request ooc) documents (initial (index_buffer IB request ooc)) ([], w) = (Inr b, s)
      \<and> flush (index_buffer IB request ooc) b s = (Inl e, b', (results, w'))
     \<longrightarrow> index_run IB request documents ooc w = (Inl e, results, w')
         \<and> index IB request documents ooc w = (Inl e, w'))
   \<and> (index IB request documents ooc w = (Inl e, w')
     \<longrightarrow> (\<exists>xs x ys bx sx by rs. documents = xs @ x # ys
            \<and> index_loop (index_buffer IB request ooc) xs (initial (index_buffer IB request ooc)) ([], w) = (Inr bx, sx)
            \<and> add (index_buffer IB request ooc) x bx sx = (Inl e, by, (rs, w')))
         \<or> (\<exists>bx sx by rs.
              index_loop (index_buffer IB request ooc) documents (initial (index_buffer IB request ooc)) ([], w) = (Inr bx, sx)
            \<and> flush (index_buffer IB request ooc) bx sx = (Inl e, by, (rs, w'))))
   \<and> (index_run (IndexBuffer lim sz) (traced requester) documents ooc ([], v) = (Inl e, results, (tr, v'))
     \<longrightarrow> stopped_at_failure e results tr)"
proof (intro conjI impI)
  assume a: "documents = ds1 @ d # ds2
      \<and> index_loop (index_buffer IB request ooc) ds1 (initial (index_buffer IB request ooc)) ([], w) = (Inr b1, s1)
      \<and> add (index_buffer IB request ooc) d b1 s1 = (Inl e, b2, (results, w'))"
  have run: "index_run IB request documents ooc w = (Inl e, results, w')"
    by (rule index_add_failure[OF a[THEN conjunct1] a[THEN conjunct2, THEN conjunct1] a[THEN conjunct2, THEN conjunct2]])
  then show "index_run IB request documents ooc w = (Inl e, results, w')" .
  from run show "index IB request documents ooc w = (Inl e, w')" by (simp add: index_of_run)
next
  assume a: "index_loop (index_buffer IB request ooc) documents (initial (index_buffer IB request ooc)) ([], w) = (Inr b, s)
      \<and> flush (index_buffer IB request ooc) b s = (Inl e, b', (results, w'))"
  have run: "index_run IB request documents ooc w = (Inl e, results, w')"
    by (rule index_flush_failure[OF a[THEN conjunct1] a[THEN conjunct2]])
  then show "index_run IB request documents ooc w = (Inl e, results, w')" .
  from run show "index IB request documents ooc w = (Inl e, w')" by (simp add: index_of_run)
next
  assume f: "index IB request documents ooc w = (Inl e, w')"
  obtain out rs w1 where r: "index_run IB request documents ooc w = (out, rs, w1)"
    by (metis prod_cases3)
  with f have "out = Inl e" "w1 = w'"
    by (cases out; simp add: index_of_run)+
  with r have "index_run IB request documents ooc w = (Inl e, rs, w')" by simp
  from index_failure_origin[OF this]
  show "(\<exists>xs x ys bx sx by rs. documents = xs @ x # ys
            \<and> index_loop (index_buffer IB request ooc) xs (initial (index_buffer IB request ooc)) ([], w) = (Inr bx, sx)
            \<and> add (index_buffer IB request ooc) x bx sx = (Inl e, by, (rs, w')))
         \<or> (\<exists>bx sx by rs.
              index_loop (index_buffer IB request ooc) documents (initial (index_buffer IB request ooc)) ([], w) = (Inr bx, sx)
            \<and> flush (index_buffer IB request ooc) bx sx = (Inl e, by, (rs, w')))"
    by (elim disjE exE) (rule disjI1, blast, rule disjI2, blast)
next
  assume "index_run (IndexBuffer lim sz) (traced requester) documents ooc ([], v) = (Inl e, results, (tr, v'))"
  from index_run_traced[OF this] show "stopped_at_failure e results tr" by simp
qed

lemma index_buffer_Undefined:
  "index_buffer (IndexBuffer lim sz) request Undefined =
     \<lparr>initial = empty_batch,
      add = IndexBuffer_add lim sz (index_flushHandler request None),
      flush = IndexBuffer_flush (index_flushHandler request None)\<rparr>"
  by (simp add: index_buffer_def IndexBuffer_def index_options_def index_buffer_args_def limits_in_force_def)

lemma docs_index_request_body: "body (docs_index_request data) = data"
  by (simp add: docs_index_request_def)



theorem index_fails_as_a_whole_witness:
  "index_loop (index_buffer (IndexBuffer example_limits example_size) (failing_requester 1) (Undefined :: (SearchOptions, unit) optionsOrCallback))
      [1, 2, 3, 4]
      (initial (index_buffer (IndexBuffer example_limits example_size) (failing_requester 1) (Undefined :: (SearchOptions, unit) optionsOrCallback)))
      ([], 0)
     = (Inr \<lparr>operations = [3, 4], count = 2, estimatedSize = 7\<rparr>, ([1, 2], 1))
   \<and> add (index_buffer (IndexBuffer example_limits example_size) (failing_requester 1) (Undefined :: (SearchOptions, unit) optionsOrCallback))
      5 \<lparr>operations = [3, 4], count = 2, estimatedSize = 7\<rparr> ([1, 2], 1)
     = (Inl ''unavailable'', empty_batch, ([1, 2], 2))
   \<and> index_run (IndexBuffer example_limits example_size) (failing_requester 1) [1, 2, 3, 4, 5, 6, 7]
        (Undefined :: (SearchOptions, unit) optionsOrCallback) 0 = (Inl ''unavailable'', [1, 2], 2)
   \<and> index (IndexBuffer example_limits example_size) (failing_requester 1) [1, 2, 3, 4, 5, 6, 7]
        (Undefined :: (SearchOptions, unit) optionsOrCallback) 0 = (Inl ''unavailable'', 2)
   \<and> index_run (IndexBuffer example_limits example_size) (traced (failing_requester 1)) [1, 2, 3, 4, 5, 6, 7]
        (Undefined :: (SearchOptions, unit) optionsOrCallback) ([], 0)
       = (Inl ''unavailable'', [1, 2],
          ([(docs_index_request [1, 2], Inr \<lparr>result = \<lparr>value' = [1, 2]\<rparr>, statusCode = 200\<rparr>),
            (docs_index_request [3, 4], Inl ''unavailable'')], 2))
   \<and> stopped_at_failure ''unavailable'' [1, 2 :: nat]
        [(docs_index_request [1, 2 :: nat], Inr \<lparr>result = \<lparr>value' = [1, 2 :: nat]\<rparr>, statusCode = 200\<rparr>),
         (docs_index_request [3, 4], Inl ''unavailable'')]
   \<and> index_loop (index_buffer (IndexBuffer example_limits example_size) (failing_requester 1) (Undefined :: (SearchOptions, unit) optionsOrCallback))
      [1, 2, 3]
      (initial (index_buffer (IndexBuffer example_limits example_size) (failing_requester 1) (Undefined :: (SearchOptions, unit) optionsOrCallback)))
      ([], 0)
     = (Inr \<lparr>operations = [3], count = 1, estimatedSize = 3\<rparr>, ([1, 2], 1))
   \<and> flush (index_buffer (IndexBuffer example_limits example_size) (failing_requester 1) (Undefined :: (SearchOptions, unit) optionsOrCallback))
      \<lparr>operations = [3], count = 1, estimatedSize = 3\<rparr> ([1, 2], 1)
     = (Inl ''unavailable'', empty_batch, ([1, 2], 2))
   \<and> index (IndexBuffer example_limits example_size) (failing_requester 1) [1, 2, 3]
        (Undefined :: (SearchOptions, unit) optionsOrCallback) 0 = (Inl ''unavailable'', 2)"
proof -
  let ?B = "index_buffer (IndexBuffer example_limits example_size) (failing_requester 1) (Undefined :: (SearchOptions, unit) optionsOrCallback)"
  have loop3: "index_loop ?B [1, 2, 3] (initial ?B) ([], 0)
     = (Inr \<lparr>operations = [3], count = 1, estimatedSize = 3\<rparr>, ([1, 2], 1))"
    by (simp add: index_buffer_Undefined IndexBuffer_add_def IndexBuffer_flush_def
        would_breach_def append_operation_def empty_batch_def index_flushHandler_def
        docs_index_request_body failing_requester_def example_limits_def example_size_def)
  have last_flush: "flush ?B \<lparr>operations = [3], count = 1, estimatedSize = 3\<rparr> ([1, 2], 1)
     = (Inl ''unavailable'', empty_batch, ([1, 2], 2))"
    by (simp add: index_buffer_Undefined IndexBuffer_flush_def empty_batch_def index_flushHandler_def
        docs_index_request_body failing_requester_def)
  note inst3 = index_fails_as_a_whole[where documents = "[1, 2, 3]" and IB = "IndexBuffer example_limits example_size"
      and request = "failing_requester 1" and ooc = "Undefined :: (SearchOptions, unit) optionsOrCallback"
      and w = 0 and b = "\<lparr>operations = [3], count = 1, estimatedSize = 3\<rparr>" and s = "([1, 2], 1)"
      and e = "''unavailable''" and b' = empty_batch and results = "[1, 2]" and w' = 2]
  have whole3: "index (IndexBuffer example_limits example_size) (failing_requester 1) [1, 2, 3]
        (Undefined :: (SearchOptions, unit) optionsOrCallback) 0 = (Inl ''unavailable'', 2)"
    using inst3[THEN conjunct2, THEN conjunct1, THEN mp, OF conjI[OF loop3 last_flush], THEN conjunct2] .
  have loop: "index_loop ?B [1, 2, 3, 4] (initial ?B) ([], 0)
     = (Inr \<lparr>operations = [3, 4], count = 2, estimatedSize = 7\<rparr>, ([1, 2], 1))"
    by (simp add: index_buffer_Undefined IndexBuffer_add_def IndexBuffer_flush_def
        would_breach_def append_operation_def empty_batch_def index_flushHandler_def
        docs_index_request_body failing_requester_def example_limits_def example_size_def)
  have step: "add ?B 5 \<lparr>operations = [3, 4], count = 2, estimatedSize = 7\<rparr> ([1, 2], 1)
     = (Inl ''unavailable'', empty_batch, ([1, 2], 2))"
    by (simp add: index_buffer_Undefined IndexBuffer_add_def IndexBuffer_flush_def
        would_breach_def append_operation_def empty_batch_def index_flushHandler_def
        docs_index_request_body failing_requester_def example_limits_def example_size_def)
  have traced_run: "index_run (IndexBuffer example_limits example_size) (traced (failing_requester 1)) [1, 2, 3, 4, 5, 6, 7]
        (Undefined :: (SearchOptions, unit) optionsOrCallback) ([], 0)
       = (Inl ''unavailable'', [1, 2],
          ([(docs_index_request [1, 2], Inr \<lparr>result = \<lparr>value' = [1, 2]\<rparr>, statusCode = 200\<rparr>),
            (docs_index_request [3, 4], Inl ''unavailable'')], 2))"
    by (simp add: index_run_def index_buffer_Undefined IndexBuffer_add_def IndexBuffer_flush_def
        would_breach_def append_operation_def empty_batch_def index_flushHandler_def
        traced_apply docs_index_request_body failing_requester_def example_limits_def example_size_def)
  have split: "[1, 2, 3, 4, 5, 6, 7 :: nat] = [1, 2, 3, 4] @ 5 # [6, 7]" by simp
  note inst = index_fails_as_a_whole[where documents = "[1, 2, 3, 4, 5, 6, 7]" and ?ds1.0 = "[1, 2, 3, 4]"
      and d = 5 and ?ds2.0 = "[6, 7]" and IB = "IndexBuffer example_limits example_size"
      and request = "failing_requester 1" and ooc = "Undefined :: (SearchOptions, unit) optionsOrCallback"
      and w = 0 and ?b1.0 = "\<lparr>operations = [3, 4], count = 2, estimatedSize = 7\<rparr>" and ?s1.0 = "([1, 2], 1)"
      and e = "''unavailable''" and ?b2.0 = empty_batch and results = "[1, 2]" and w' = 2
      and lim = example_limits and sz = example_size and requester = "failing_requester 1" and v = 0
      and tr = "[(docs_index_request [1, 2], Inr \<lparr>result = \<lparr>value' = [1, 2]\<rparr>, statusCode = 200\<rparr>),
            (docs_index_request [3, 4], Inl ''unavailable'')]" and v' = 2]
  have whole: "index_run (IndexBuffer example_limits example_size) (failing_requester 1) [1, 2, 3, 4, 5, 6, 7]
        (Undefined :: (SearchOptions, unit) optionsOrCallback) 0 = (Inl ''unavailable'', [1, 2], 2)
     \<and> index (IndexBuffer example_limits example_size) (failing_requester 1) [1, 2, 3, 4, 5, 6, 7]
        (Undefined :: (SearchOptions, unit) optionsOrCallback) 0 = (Inl ''unavailable'', 2)"
    using inst[THEN conjunct1, THEN mp, OF conjI[OF split conjI[OF loop step]]] .
  have stopped: "stopped_at_failure ''unavailable'' [1, 2 :: nat]
        [(docs_index_request [1, 2 :: nat], Inr \<lparr>result = \<lparr>value' = [1, 2 :: nat]\<rparr>, statusCode = 200\<rparr>),
         (docs_index_request [3, 4], Inl ''unavailable'')]"
    using inst[THEN conjunct2, THEN conjunct2, THEN conjunct2, THEN mp, OF traced_run] .
  show ?thesis
    by (intro conjI loop step traced_run stopped whole[THEN conjunct1] whole[THEN conjunct2]
        loop3 last_flush whole3)
qed

section \<open>Stream mode\<close>


lemma transform_error:
  assumes "status st = Open" "add buffer d (buffer_state st) s = (Inl e, b', s')"
  shows "transform buffer d st s = (st\<lparr>buffer_state := b', status := Errored e\<rparr>, s')"
  using assms by (simp add: transform_def process_def transform_callback_def)

lemma final_flush_error:
  assumes "status st = Open" "flush buffer (buffer_state st) s = (Inl e, b', s')"
  shows "final_flush buffer st s = (st\<lparr>buffer_state := b', status := Errored e\<rparr>, s')"
  using assms by (simp add: final_flush_def process_def flush_callback_def)

lemma closed_stream_stops:
  assumes "status st \<noteq> Open"
  shows "stream_run buffer inputs st s = (st, s)"
  using assms
proof (induction inputs)
  case Nil
  then show ?case by simp
next
  case (Cons i inputs)
  then show ?case by (cases i) (simp_all add: transform_def final_flush_def)
qed

lemma transform_emitted_grows: "prefix (emitted st) (emitted (fst (transform buffer d st s)))"
  by (auto simp: transform_def process_def transform_callback_def split: prod.splits sum.splits)

lemma final_flush_emitted_grows: "prefix (emitted st) (emitted (fst (final_flush buffer st s)))"
  by (auto simp: final_flush_def process_def flush_callback_def split: prod.splits sum.splits)

lemma stream_run_emitted_grows: "prefix (emitted st) (emitted (fst (stream_run buffer inputs st s)))"
proof (induction inputs arbitrary: st s)
  case Nil
  then show ?case by simp
next
  case (Cons i inputs)
  show ?case
  proof (cases i)
    case (Write d)
    obtain st1 s1 where step: "transform buffer d st s = (st1, s1)"
      by (cases "transform buffer d st s")
    have "prefix (emitted st) (emitted st1)"
      using transform_emitted_grows[of st buffer d s] step by simp
    moreover have "prefix (emitted st1) (emitted (fst (stream_run buffer inputs st1 s1)))"
      by (rule Cons.IH)
    ultimately show ?thesis using Write step by (auto intro: prefix_order.trans)
  next
    case End
    obtain st1 s1 where step: "final_flush buffer st s = (st1, s1)"
      by (cases "final_flush buffer st s")
    have "prefix (emitted st) (emitted st1)"
      using final_flush_emitted_grows[of st buffer s] step by simp
    moreover have "prefix (emitted st1) (emitted (fst (stream_run buffer inputs st1 s1)))"
      by (rule Cons.IH)
    ultimately show ?thesis using End step by (auto intro: prefix_order.trans)
  qed
qed

lemma stream_buffer_methods:
  "initial (IndexBuffer lim sz (stream_buffer_args requester index_name options)) = empty_batch"
  "add (IndexBuffer lim sz (stream_buffer_args requester index_name options)) =
     IndexBuffer_add lim sz (stream_flushHandler requester index_name options)"
  "flush (IndexBuffer lim sz (stream_buffer_args requester index_name options)) =
     IndexBuffer_flush (stream_flushHandler requester index_name options)"
  by (simp_all add: IndexBuffer_def stream_buffer_args_def limits_in_force_def)

text \<open>
  C5. For any accumulator: when the \<open>add\<close> for a written document or the \<open>flush\<close> at the end
  of the stream rejects, the stream signals that error and leaves the emitted data as it
  was; a rejected indexing request makes the flush handler of the stream reject with the
  same error. Once the stream has signalled an error, no further input has any effect: the
  accumulator is not called again, the outside world sees no further request, and the
  emitted data stay. Throughout a stream's life, what has been emitted remains emitted.
\<close>

theorem stream_stops_at_transport_error:
  "(status st = Open \<and> add buffer d (buffer_state st) s = (Inl e, b', s')
      \<longrightarrow> transform buffer d st s = (st\<lparr>buffer_state := b', status := Errored e\<rparr>, s'))
   \<and> (status st = Open \<and> flush buffer (buffer_state st) s = (Inl e, b', s')
      \<longrightarrow> final_flush buffer st s = (st\<lparr>buffer_state := b', status := Errored e\<rparr>, s'))
   \<and> (requester (docs_index_request data\<lparr>path := ''/indexes/'' @ index_name @ ''/docs/index''\<rparr>) options w = (Inl e, w')
      \<longrightarrow> stream_flushHandler requester index_name options data w = (Inl e, w'))
   \<and> (status st = Errored e \<longrightarrow> stream_run buffer inputs st s = (st, s))
   \<and> prefix (emitted st) (emitted (fst (stream_run buffer inputs st s)))"
proof (intro conjI impI)
  assume a: "status st = Open \<and> add buffer d (buffer_state st) s = (Inl e, b', s')"
  show "transform buffer d st s = (st\<lparr>buffer_state := b', status := Errored e\<rparr>, s')"
    by (rule transform_error[OF a[THEN conjunct1] a[THEN conjunct2]])
next
  assume a: "status st = Open \<and> flush buffer (buffer_state st) s = (Inl e, b', s')"
  show "final_flush buffer st s = (st\<lparr>buffer_state := b', status := Errored e\<rparr>, s')"
    by (rule final_flush_error[OF a[THEN conjunct1] a[THEN conjunct2]])
next
  assume "requester (docs_index_request data\<lparr>path := ''/indexes/'' @ index_name @ ''/docs/index''\<rparr>) options w = (Inl e, w')"
  then show "stream_flushHandler requester index_name options data w = (Inl e, w')"
    by (simp add: stream_flushHandler_def IndexStream_request_def docs_index_request_def)
next
  assume "status st = Errored e"
  then show "stream_run buffer inputs st s = (st, s)" by (simp add: closed_stream_stops)
next
  show "prefix (emitted st) (emitted (fst (stream_run buffer inputs st s)))"
    by (rule stream_run_emitted_grows)
qed

theorem stream_stops_at_transport_error_witness:
  "stream_run (IndexBuffer example_limits example_size (stream_buffer_args (traced (failing_requester 1)) ''hotels'' None))
      [Write 1, Write 2, Write 3, Write 4]
      (new_IndexStream (IndexBuffer example_limits example_size (stream_buffer_args (traced (failing_requester 1)) ''hotels'' None)))
      ([], 0)
    = (\<lparr>buffer_state = \<lparr>operations = [3, 4], count = 2, estimatedSize = 7\<rparr>, emitted = [[], [], [1, 2], []], status = Open\<rparr>,
       ([(docs_index_request [1, 2]\<lparr>path := ''/indexes/hotels/docs/index''\<rparr>, Inr \<lparr>result = \<lparr>value' = [1, 2]\<rparr>, statusCode = 200\<rparr>)], 1))
   \<and> transform (IndexBuffer example_limits example_size (stream_buffer_args (traced (failing_requester 1)) ''hotels'' None)) 5
      \<lparr>buffer_state = \<lparr>operations = [3, 4], count = 2, estimatedSize = 7\<rparr>, emitted = [[], [], [1, 2], []], status = Open\<rparr>
      ([(docs_index_request [1, 2]\<lparr>path := ''/indexes/hotels/docs/index''\<rparr>, Inr \<lparr>result = \<lparr>value' = [1, 2]\<rparr>, statusCode = 200\<rparr>)], 1)
    = (\<lparr>buffer_state = empty_batch, emitted = [[], [], [1, 2], []], status = Errored ''unavailable''\<rparr>,
       ([(docs_index_request [1, 2]\<lparr>path := ''/indexes/hotels/docs/index''\<rparr>, Inr \<lparr>result = \<lparr>value' = [1, 2]\<rparr>, statusCode = 200\<rparr>),
         (docs_index_request [3, 4]\<lparr>path := ''/indexes/hotels/docs/index''\<rparr>, Inl ''unavailable'')], 2))
   \<and> stream_run (IndexBuffer example_limits example_size (stream_buffer_args (traced (failing_requester 1)) ''hotels'' None))
      [Write 6, End]
      \<lparr>buffer_state = empty_batch, emitted = [[], [], [1, 2], []], status = Errored ''unavailable''\<rparr>
      ([(docs_index_request [1, 2]\<lparr>path := ''/indexes/hotels/docs/index''\<rparr>, Inr \<lparr>result = \<lparr>value' = [1, 2]\<rparr>, statusCode = 200\<rparr>),
        (docs_index_request [3, 4]\<lparr>path := ''/indexes/hotels/docs/index''\<rparr>, Inl ''unavailable'')], 2)
    = (\<lparr>buffer_state = empty_batch, emitted = [[], [], [1, 2], []], status = Errored ''unavailable''\<rparr>,
       ([(docs_index_request [1, 2]\<lparr>path := ''/indexes/hotels/docs/index''\<rparr>, Inr \<lparr>result = \<lparr>value' = [1, 2]\<rparr>, statusCode = 200\<rparr>),
         (docs_index_request [3, 4]\<lparr>path := ''/indexes/hotels/docs/index''\<rparr>, Inl ''unavailable'')], 2))
   \<and> final_flush (IndexBuffer example_limits example_size (stream_buffer_args (traced (failing_requester 1)) ''hotels'' None))
      \<lparr>buffer_state = \<lparr>operations = [3, 4], count = 2, estimatedSize = 7\<rparr>, emitted = [[], [], [1, 2], []], status = Open\<rparr>
      ([(docs_index_request [1, 2]\<lparr>path := ''/indexes/hotels/docs/index''\<rparr>, Inr \<lparr>result = \<lparr>value' = [1, 2]\<rparr>, statusCode = 200\<rparr>)], 1)
    = (\<lparr>buffer_state = empty_batch, emitted = [[], [], [1, 2], []], status = Errored ''unavailable''\<rparr>,
       ([(docs_index_request [1, 2]\<lparr>path := ''/indexes/hotels/docs/index''\<rparr>, Inr \<lparr>result = \<lparr>value' = [1, 2]\<rparr>, statusCode = 200\<rparr>),
         (docs_index_request [3, 4]\<lparr>path := ''/indexes/hotels/docs/index''\<rparr>, Inl ''unavailable'')], 2))
   \<and> stream_flushHandler (failing_requester 1) ''hotels'' None [3, 4] 1 = (Inl ''unavailable'', 2)"
proof -
  let ?B = "IndexBuffer example_limits example_size (stream_buffer_args (traced (failing_requester 1)) ''hotels'' None)"
  let ?st = "\<lparr>buffer_state = \<lparr>operations = [3, 4], count = 2, estimatedSize = 7\<rparr>, emitted = [[], [], [1, 2], []], status = Open\<rparr>
      :: (nat PendingBatch, nat, string) IndexStream"
  let ?tr1 = "[(docs_index_request [1, 2]\<lparr>path := ''/indexes/hotels/docs/index''\<rparr>, Inr \<lparr>result = \<lparr>value' = [1, 2]\<rparr>, statusCode = 200\<rparr>)]
      :: (nat list SearchRequest \<times> (string + nat IndexingResults AzureSearchResponse)) list"
  let ?tr2 = "?tr1 @ [(docs_index_request [3, 4]\<lparr>path := ''/indexes/hotels/docs/index''\<rparr>, Inl ''unavailable'')]"
  have before: "stream_run ?B [Write 1, Write 2, Write 3, Write 4] (new_IndexStream ?B) ([], 0) = (?st, (?tr1, 1))"
    by (simp add: new_IndexStream_def stream_buffer_methods
        transform_def process_def transform_callback_def
        IndexBuffer_add_def IndexBuffer_flush_def would_breach_def append_operation_def empty_batch_def
        stream_flushHandler_def IndexStream_request_def docs_index_request_def traced_apply
        failing_requester_def example_limits_def example_size_def)
  have fails: "status ?st = Open \<and> add ?B 5 (buffer_state ?st) (?tr1, 1) = (Inl ''unavailable'', empty_batch, (?tr2, 2))"
    by (simp add: stream_buffer_methods
        IndexBuffer_add_def IndexBuffer_flush_def would_breach_def append_operation_def empty_batch_def
        stream_flushHandler_def IndexStream_request_def docs_index_request_def traced_apply
        failing_requester_def example_limits_def example_size_def)
  note inst = stream_stops_at_transport_error[where st = ?st and buffer = ?B and d = 5 and s = "(?tr1, 1)"
      and e = "''unavailable''" and b' = empty_batch and s' = "(?tr2, 2)"]
  have signalled: "transform ?B 5 ?st (?tr1, 1) = (?st\<lparr>buffer_state := empty_batch, status := Errored ''unavailable''\<rparr>, (?tr2, 2))"
    using inst[THEN conjunct1, THEN mp, OF fails] .
  note inst2 = stream_stops_at_transport_error[where st = "?st\<lparr>buffer_state := empty_batch, status := Errored ''unavailable''\<rparr>"
      and buffer = ?B and e = "''unavailable''" and inputs = "[Write 6, End]" and s = "(?tr2, 2)"]
  have stopped: "stream_run ?B [Write 6, End] (?st\<lparr>buffer_state := empty_batch, status := Errored ''unavailable''\<rparr>) (?tr2, 2)
      = (?st\<lparr>buffer_state := empty_batch, status := Errored ''unavailable''\<rparr>, (?tr2, 2))"
    by (rule inst2[THEN conjunct2, THEN conjunct2, THEN conjunct2, THEN conjunct1, THEN mp]) simp
  have flush_fails: "status ?st = Open \<and> flush ?B (buffer_state ?st) (?tr1, 1) = (Inl ''unavailable'', empty_batch, (?tr2, 2))"
    by (simp add: stream_buffer_methods IndexBuffer_flush_def empty_batch_def
        stream_flushHandler_def IndexStream_request_def docs_index_request_def traced_apply
        failing_requester_def)
  have at_end: "final_flush ?B ?st (?tr1, 1) = (?st\<lparr>buffer_state := empty_batch, status := Errored ''unavailable''\<rparr>, (?tr2, 2))"
    using inst[THEN conjunct2, THEN conjunct1, THEN mp, OF flush_fails] .
  note inst3 = stream_stops_at_transport_error[where requester = "failing_requester 1" and data = "[3, 4]"
      and index_name = "''hotels''" and options = None and w = 1 and e = "''unavailable''" and w' = 2]
  have rejected: "stream_flushHandler (failing_requester 1) ''hotels'' None [3, 4] 1 = (Inl ''unavailable'', 2)"
    by (rule inst3[THEN conjunct2, THEN conjunct2, THEN conjunct1, THEN mp])
      (simp add: failing_requester_def)
  from before signalled stopped at_end rejected show ?thesis by simp
qed

section \<open>Where the batch limits come from\<close>

text \<open>
  C8, as the code has it. Both callers construct the accumulator with the flush handler as
  the only constructor argument: neither \<open>index\<close> nor the indexing stream passes batch
  limits. The limits in force in the accumulators they construct are therefore those of
  the accumulator's own module, whatever arguments the callers themselves were given.
\<close>

theorem callers_pass_no_limits:
  "limits_arg (index_buffer_args request options) = None
   \<and> limits_arg (stream_buffer_args requester index_name stream_options) = None
   \<and> limits_in_force module_limits (index_buffer_args request options) = module_limits
   \<and> limits_in_force module_limits (stream_buffer_args requester index_name stream_options) = module_limits
   \<and> add (IndexBuffer module_limits sz (index_buffer_args request options)) =
       IndexBuffer_add module_limits sz (index_flushHandler request options)
   \<and> add (IndexBuffer module_limits sz (stream_buffer_args requester index_name stream_options)) =
       IndexBuffer_add module_limits sz (stream_flushHandler requester index_name stream_options)"
  by (simp add: index_buffer_args_def stream_buffer_args_def limits_in_force_def IndexBuffer_def)

text \<open>
  The claim as stated, that the caller supplies the limits when it constructs the
  accumulator, fails at both constructions: the argument record carries no limits.
\<close>

theorem limits_supplied_at_construction_counterexample:
  "limits_arg (index_buffer_args echo_requester None) = None
   \<and> limits_arg (stream_buffer_args echo_requester ''hotels'' None) = None"
  by (simp add: index_buffer_args_def stream_buffer_args_def)

section \<open>Date parsing\<close>

lemma matches_Cons:
  "matches (a # ats) s \<longleftrightarrow> (\<exists>c cs. s = c # cs \<and> atom_matches a c \<and> matches ats cs)"
  by (cases s) auto

lemma matches_Nil: "matches [] s \<longleftrightarrow> s = []"
  by (cases s) auto

lemma digits_2: "digits 2 x \<longleftrightarrow> (\<exists>a b. x = [a, b] \<and> is_digit a \<and> is_digit b)"
  by (auto simp: digits_def length_Suc_conv numeral_2_eq_2)

lemma digits_4:
  "digits 4 x \<longleftrightarrow> (\<exists>a b c d. x = [a, b, c, d] \<and> is_digit a \<and> is_digit b \<and> is_digit c \<and> is_digit d)"
proof -
  have "length x = 4 \<longleftrightarrow> length x = Suc (Suc (Suc (Suc 0)))" by arith
  then show ?thesis unfolding digits_def by (auto simp: length_Suc_conv)
qed

lemma fraction_digits:
  "1 \<le> length f \<and> length f \<le> 3 \<and> list_all is_digit f \<longleftrightarrow>
     (\<exists>a. f = [a] \<and> is_digit a) \<or> (\<exists>a b. f = [a, b] \<and> is_digit a \<and> is_digit b)
     \<or> (\<exists>a b c. f = [a, b, c] \<and> is_digit a \<and> is_digit b \<and> is_digit c)"
proof
  assume a: "1 \<le> length f \<and> length f \<le> 3 \<and> list_all is_digit f"
  then have "length f = Suc 0 \<or> length f = Suc (Suc 0) \<or> length f = Suc (Suc (Suc 0))"
    by arith
  with a show "(\<exists>a. f = [a] \<and> is_digit a) \<or> (\<exists>a b. f = [a, b] \<and> is_digit a \<and> is_digit b)
     \<or> (\<exists>a b c. f = [a, b, c] \<and> is_digit a \<and> is_digit b \<and> is_digit c)"
    by (auto simp: length_Suc_conv)
next
  assume "(\<exists>a. f = [a] \<and> is_digit a) \<or> (\<exists>a b. f = [a, b] \<and> is_digit a \<and> is_digit b)
     \<or> (\<exists>a b c. f = [a, b, c] \<and> is_digit a \<and> is_digit b \<and> is_digit c)"
  then show "1 \<le> length f \<and> length f \<le> 3 \<and> list_all is_digit f" by auto
qed

lemma date_text_imp_RE_DATE:
  assumes "utc_timestamp_text s"
  shows "RE_DATE_test s"
proof -
  from assms obtain YYYY MM DD hh mm ss fraction where
    s: "s = YYYY @ ''-'' @ MM @ ''-'' @ DD @ ''T'' @ hh @ '':'' @ mm @ '':'' @ ss @ fraction @ ''Z''"
    and d: "digits 4 YYYY" "digits 2 MM" "digits 2 DD" "digits 2 hh" "digits 2 mm" "digits 2 ss"
    and f: "fraction = [] \<or>
      (\<exists>f. fraction = ''.'' @ f \<and> (1 \<le> length f \<and> length f \<le> 3 \<and> list_all is_digit f))"
    unfolding utc_timestamp_text_def by blast
  from d obtain y1 y2 y3 y4 m1 m2 d1 d2 h1 h2 n1 n2 s1 s2 where
    parts: "YYYY = [y1, y2, y3, y4]" "MM = [m1, m2]" "DD = [d1, d2]" "hh = [h1, h2]"
      "mm = [n1, n2]" "ss = [s1, s2]"
    and dig: "is_digit y1" "is_digit y2" "is_digit y3" "is_digit y4" "is_digit m1" "is_digit m2"
      "is_digit d1" "is_digit d2" "is_digit h1" "is_digit h2" "is_digit n1" "is_digit n2"
      "is_digit s1" "is_digit s2"
    unfolding digits_2 digits_4 by blast
  from f consider "fraction = []"
    | a where "fraction = [CHR ''.'', a]" "is_digit a"
    | a b where "fraction = [CHR ''.'', a, b]" "is_digit a" "is_digit b"
    | a b c where "fraction = [CHR ''.'', a, b, c]" "is_digit a" "is_digit b" "is_digit c"
    unfolding fraction_digits by auto
  then show ?thesis
  proof cases
    case 1
    then show ?thesis using dig by (simp add: s parts RE_DATE_test_def date_time_atoms_def)
  next
    case 2
    then show ?thesis using dig by (simp add: s parts RE_DATE_test_def date_time_atoms_def)
  next
    case 3
    then show ?thesis using dig by (simp add: s parts RE_DATE_test_def date_time_atoms_def)
  next
    case 4
    then show ?thesis using dig by (simp add: s parts RE_DATE_test_def date_time_atoms_def)
  qed
qed

lemma utc_textI:
  assumes "s = YYYY @ ''-'' @ MM @ ''-'' @ DD @ ''T'' @ hh @ '':'' @ mm @ '':'' @ ss @ fraction @ ''Z''"
    "digits 4 YYYY" "digits 2 MM" "digits 2 DD" "digits 2 hh" "digits 2 mm" "digits 2 ss"
    "fraction = [] \<or>
      (\<exists>f. fraction = ''.'' @ f \<and> 1 \<le> length f \<and> length f \<le> 3 \<and> list_all is_digit f)"
  shows "utc_timestamp_text s"
  unfolding utc_timestamp_text_def using assms by blast

lemma base_match:
  assumes "matches (date_time_atoms @ tail) s"
  shows "\<exists>y1 y2 y3 y4 m1 m2 d1 d2 h1 h2 n1 n2 s1 s2 rest.
           s = [y1, y2, y3, y4] @ ''-'' @ [m1, m2] @ ''-'' @ [d1, d2] @ ''T'' @ [h1, h2] @ '':''
                 @ [n1, n2] @ '':'' @ [s1, s2] @ rest
           \<and> digits 4 [y1, y2, y3, y4] \<and> digits 2 [m1, m2] \<and> digits 2 [d1, d2] \<and> digits 2 [h1, h2]
           \<and> digits 2 [n1, n2] \<and> digits 2 [s1, s2] \<and> matches tail rest"
  using assms by (auto simp: date_time_atoms_def matches_Cons digits_def)

lemma RE_DATE_imp_date_text:
  assumes "RE_DATE_test s"
  shows "utc_timestamp_text s"
proof -
  from assms obtain tail where tail: "matches (date_time_atoms @ tail) s"
    and tl: "tail = [Lit CHR ''Z''] \<or> tail = [Lit CHR ''.'', Digit, Lit CHR ''Z'']
         \<or> tail = [Lit CHR ''.'', Digit, Digit, Lit CHR ''Z'']
         \<or> tail = [Lit CHR ''.'', Digit, Digit, Digit, Lit CHR ''Z'']"
    unfolding RE_DATE_test_def by blast
  from base_match[OF tail] obtain y1 y2 y3 y4 m1 m2 d1 d2 h1 h2 n1 n2 s1 s2 rest where
    s: "s = [y1, y2, y3, y4] @ ''-'' @ [m1, m2] @ ''-'' @ [d1, d2] @ ''T'' @ [h1, h2] @ '':''
             @ [n1, n2] @ '':'' @ [s1, s2] @ rest"
    and d: "digits 4 [y1, y2, y3, y4]" "digits 2 [m1, m2]" "digits 2 [d1, d2]" "digits 2 [h1, h2]"
      "digits 2 [n1, n2]" "digits 2 [s1, s2]"
    and rest: "matches tail rest"
    by blast
  from tl rest have "\<exists>fraction. rest = fraction @ ''Z'' \<and>
      (fraction = [] \<or>
        (\<exists>f. fraction = ''.'' @ f \<and> 1 \<le> length f \<and> length f \<le> 3 \<and> list_all is_digit f))"
    by (auto simp: matches_Cons matches_Nil)
  then obtain fraction where "rest = fraction @ ''Z''"
    and "fraction = [] \<or>
      (\<exists>f. fraction = ''.'' @ f \<and> 1 \<le> length f \<and> length f \<le> 3 \<and> list_all is_digit f)"
    by blast
  with s d show ?thesis
    by (intro utc_textI[of s "[y1, y2, y3, y4]" "[m1, m2]" "[d1, d2]" "[h1, h2]" "[n1, n2]" "[s1, s2]" fraction])
      simp_all
qed

lemma RE_DATE_test_iff: "RE_DATE_test s \<longleftrightarrow> utc_timestamp_text s"
  using RE_DATE_imp_date_text date_text_imp_RE_DATE by blast

lemma internalize_date_reviver:
  "internalize (date_reviver options) k (v :: 'n json) =
     (if parseDates options = Some True then coerce_dates v else v)"
  "internalize_elements (date_reviver options) i (xs :: 'n json list) =
     (if parseDates options = Some True then map coerce_dates xs else xs)"
  "internalize_properties (date_reviver options) (ps :: (string \<times> 'n json) list) =
     (if parseDates options = Some True then map (\<lambda>(name, x). (name, coerce_dates x)) ps else ps)"
  by (induction "date_reviver options :: json_key \<Rightarrow> 'n json \<Rightarrow> 'n json" k v
      and "date_reviver options :: json_key \<Rightarrow> 'n json \<Rightarrow> 'n json" i xs
      and "date_reviver options :: json_key \<Rightarrow> 'n json \<Rightarrow> 'n json" ps
      rule: internalize_internalize_elements_internalize_properties.induct)
    (simp_all add: date_reviver_def RE_DATE_test_iff)

lemma parse_options_cases:
  "parseDates (parse_options Undefined) = Some True"
  "parseDates (parse_options (Callback c)) = Some True"
  "parseDates (parse_options (Options (opts\<lparr>parseDates := None\<rparr>))) = Some True"
  "parseDates (parse_options (Options (opts\<lparr>parseDates := Some flag\<rparr>))) = Some flag"
  by (simp_all add: parse_options_def empty_parse_options_def)

lemma date_parser_by_default:
  assumes "\<And>ooc. parser ooc = jsonParser (date_reviver (parse_options ooc))"
  shows "coerces_by_default parser"
  unfolding coerces_by_default_def
  by (simp add: assms jsonParser_def internalize_date_reviver parse_options_cases)

text \<open>
  C10. For \<open>search\<close>, \<open>suggest\<close> and \<open>lookup\<close>: when the caller passes no options, a callback
  in their place, or options in which \<open>parseDates\<close> is not set, the parsed response is the
  response in which every string value of the form \<open>YYYY-MM-DDTHH:MM:SS\<close>, with an optional
  fraction of one to three digits and a closing \<open>Z\<close> and nothing else, is replaced by the
  date made from it, and every other value is unchanged; the same holds when \<open>parseDates\<close>
  is \<open>true\<close>. When \<open>parseDates\<close> is \<open>false\<close> the response is returned unchanged.
\<close>

theorem dates_are_parsed_by_default:
  "coerces_by_default search_parser \<and> coerces_by_default suggest_parser
   \<and> coerces_by_default lookup_parser"
  by (intro conjI date_parser_by_default) (simp_all add: search_parser_def suggest_parser_def lookup_parser_def)

theorem dates_are_parsed_by_default_witness:
  "search_parser (Undefined :: (DocumentParseOptions, unit) optionsOrCallback)
     (JObject [(''value'', JArray [JObject [(''opened'', JString ''2018-03-04T05:06:07.89Z''),
                                          (''name'', JString ''2018-03-04''), (''rooms'', JNumber (12 :: nat))]])])
   = JObject [(''value'', JArray [JObject [(''opened'', JDate ''2018-03-04T05:06:07.89Z''),
                                          (''name'', JString ''2018-03-04''), (''rooms'', JNumber 12)]])]
   \<and> lookup_parser (Options (empty_parse_options\<lparr>parseDates := Some False\<rparr>) :: (DocumentParseOptions, unit) optionsOrCallback)
       (JObject [(''opened'', JString ''2018-03-04T05:06:07Z'')])
     = (JObject [(''opened'', JString ''2018-03-04T05:06:07Z'')] :: nat json)"
proof -
  have d: "utc_timestamp_text ''2018-03-04T05:06:07.89Z''"
    unfolding RE_DATE_test_iff[symmetric]
    by (simp add: RE_DATE_test_def date_time_atoms_def is_digit_def)
  have n: "\<not> utc_timestamp_text ''2018-03-04''"
    unfolding RE_DATE_test_iff[symmetric]
    by (simp add: RE_DATE_test_def date_time_atoms_def is_digit_def)
  from d n show ?thesis
    by (simp add: dates_are_parsed_by_default[unfolded coerces_by_default_def])
qed

section \<open>Stream mode: what is emitted\<close>








section \<open>The requests of the flush transport\<close>


























end
